theory Spec2Isabelle
  imports Complex_Main "HOL-Library.Multiset" "HOL-Library.Sublist"
begin

section \<open>The store behind \<open>DBManager\<close>\<close>

text \<open>
  \<open>src/db_manager.py\<close> talks to PostgreSQL through one psycopg2 connection. The model
  keeps what the statements of that file can observe: the two tables created by
  \<open>__create_tables\<close>, the two \<open>SERIAL\<close> sequences, and the state of the connection.

  A \<open>char\<close> stands for one character of the text (one code of a single-byte character
  set that extends ASCII); \<open>VARCHAR(255)\<close> counts characters. A sequence hands out its
  next value when an \<open>INSERT\<close> is executed, and keeps the step when the row is then
  refused or the transaction rolled back; the upper limit of the sequences is not
  modelled. What \<open>print\<close> writes is not modelled.

  Two things that PostgreSQL decides and the source does not fix are parameters of
  the functions that depend on them: the number of decimal places that an average of
  \<open>numeric\<close> values is rounded to (\<open>result_scale\<close>) and the lower-casing of the
  locale (\<open>lower\<close>).
\<close>

datatype error =
    InterfaceError
  | ValueError
  | InFailedSqlTransaction
  | NotNullViolation
  | ForeignKeyViolation
  | StringDataRightTruncation
  | NumericValueOutOfRange

text \<open>A row of \<open>companies\<close>: \<open>id SERIAL PRIMARY KEY, name VARCHAR(255) NOT NULL,
  url VARCHAR(255), description TEXT\<close>.\<close>

record companies_row =
  c_id :: int
  c_name :: string
  c_url :: "string option"
  c_description :: "string option"

text \<open>A row of \<open>vacancies\<close>: \<open>id SERIAL PRIMARY KEY,
  company_id INT REFERENCES companies(id) ON DELETE CASCADE, title VARCHAR(255) NOT NULL,
  salary_from INT, salary_to INT, url VARCHAR(255), description TEXT\<close>.\<close>

record vacancies_row =
  v_id :: int
  v_company_id :: "int option"
  v_title :: string
  v_salary_from :: "int option"
  v_salary_to :: "int option"
  v_url :: "string option"
  v_description :: "string option"

text \<open>
  The connection: usable, inside a transaction that a failed statement has aborted
  (every further statement is refused until a commit or rollback), or closed.
\<close>

datatype conn_status = Ready | Aborted | Closed

record store =
  companies :: "companies_row list"
  vacancies :: "vacancies_row list"
  companies_id_seq :: int
  vacancies_id_seq :: int
  status :: conn_status

text \<open>The store after \<open>DBManager.__init__\<close> on an empty database.\<close>

definition init_store :: store where
  "init_store = \<lparr>companies = [], vacancies = [], companies_id_seq = 1,
     vacancies_id_seq = 1, status = Ready\<rparr>"

text \<open>
  The dictionaries handed to \<open>insert_company\<close> and \<open>insert_vacancy\<close>. Both functions
  read them with \<open>dict.get\<close>, so a missing key and an explicit \<open>None\<close> are the same
  \<open>None\<close>; a present value is taken to have the type of its column.
\<close>

record company =
  name :: "string option"
  url :: "string option"
  description :: "string option"

record vacancy =
  company_id :: "int option"
  title :: "string option"
  salary_from :: "int option"
  salary_to :: "int option"
  vacancy_url :: "string option"
  vacancy_description :: "string option"

section \<open>SQL values and expressions\<close>

text \<open>A nullable value is an \<open>option\<close>; a condition has three values, \<open>None\<close> being
  unknown. \<open>WHERE\<close> and \<open>ON\<close> keep a row only when the condition is true.\<close>

definition is_true :: "bool option \<Rightarrow> bool" where
  "is_true b = (b = Some True)"

definition sql_eq :: "'a option \<Rightarrow> 'a option \<Rightarrow> bool option" where
  "sql_eq a b = (case a of None \<Rightarrow> None
                 | Some x \<Rightarrow> (case b of None \<Rightarrow> None | Some y \<Rightarrow> Some (x = y)))"

definition sql_gt :: "rat option \<Rightarrow> rat option \<Rightarrow> bool option" where
  "sql_gt a b = (case a of None \<Rightarrow> None
                 | Some x \<Rightarrow> (case b of None \<Rightarrow> None | Some y \<Rightarrow> Some (x > y)))"

definition sql_and :: "bool option \<Rightarrow> bool option \<Rightarrow> bool option" where
  "sql_and a b =
     (if a = Some False \<or> b = Some False then Some False
      else if a = Some True \<and> b = Some True then Some True
      else None)"

definition is_not_null :: "'a option \<Rightarrow> bool option" where
  "is_not_null a = Some (a \<noteq> None)"

definition and_then :: "error + 'a \<Rightarrow> ('a \<Rightarrow> error + 'b) \<Rightarrow> error + 'b" where
  "and_then r f = (case r of Inl e \<Rightarrow> Inl e | Inr x \<Rightarrow> f x)"

text \<open>Evaluating an expression row by row stops at the first row that raises.\<close>

fun collect :: "(error + 'a) list \<Rightarrow> error + 'a list" where
  "collect [] = Inr []"
| "collect (r # rs) =
     (case r of Inl e \<Rightarrow> Inl e
      | Inr x \<Rightarrow> (case collect rs of Inl e \<Rightarrow> Inl e | Inr xs \<Rightarrow> Inr (x # xs)))"

text \<open>\<open>INT\<close> is a 32-bit signed integer: storing a value out of range raises, and so
  does an addition whose result is out of range.\<close>

definition int4 :: "int \<Rightarrow> error + int" where
  "int4 x = (if - 2147483648 \<le> x \<and> x \<le> 2147483647 then Inr x
             else Inl NumericValueOutOfRange)"

definition int4pl :: "int option \<Rightarrow> int option \<Rightarrow> error + int option" where
  "int4pl a b =
     (case a of None \<Rightarrow> Inr None
      | Some x \<Rightarrow> (case b of None \<Rightarrow> Inr None
                   | Some y \<Rightarrow> and_then (int4 (x + y)) (\<lambda>z. Inr (Some z))))"

text \<open>
  \<open>/ 2.0\<close> divides by a \<open>numeric\<close> constant, and \<open>AVG\<close> of \<open>numeric\<close> is \<open>numeric\<close>
  (psycopg2 hands it to Python as a \<open>Decimal\<close>). A \<open>numeric\<close> is a decimal fraction, here
  a rational number. A division gives the quotient rounded, half away from zero, to a
  result scale that PostgreSQL selects from the two operands. That scale is never
  below the display scale of the divisor, which is 1 for \<open>2.0\<close>: the halves are exact.
\<close>

definition div_2_0 :: "int option \<Rightarrow> rat option" where
  "div_2_0 a = map_option (\<lambda>x. of_int x / 2) a"

definition round_numeric :: "nat \<Rightarrow> rat \<Rightarrow> rat" where
  "round_numeric rscale x =
     (if 0 \<le> x then of_int \<lfloor>x * 10 ^ rscale + 1 / 2\<rfloor> / 10 ^ rscale
      else - (of_int \<lfloor>- x * 10 ^ rscale + 1 / 2\<rfloor> / 10 ^ rscale))"

text \<open>
  \<open>AVG\<close> skips nulls and is null when nothing is left; otherwise it is the sum divided
  by the count, rounded to the number of decimal places that PostgreSQL selects from
  the values averaged.
\<close>

definition sql_avg :: "(rat list \<Rightarrow> nat) \<Rightarrow> rat option list \<Rightarrow> rat option" where
  "sql_avg result_scale xs =
     (let ys = [y. Some y \<leftarrow> xs]
      in if ys = [] then None
         else Some (round_numeric (result_scale ys)
                      (sum_list ys / of_nat (length ys))))"

text \<open>
  Storing into \<open>VARCHAR(255)\<close>: a longer string raises, unless the characters beyond the
  255th are all spaces, in which case PostgreSQL stores the first 255.
\<close>

definition varchar255 :: "string \<Rightarrow> error + string" where
  "varchar255 x =
     (if length x \<le> 255 then Inr x
      else if list_all (\<lambda>c. c = CHR '' '') (drop 255 x) then Inr (take 255 x)
      else Inl StringDataRightTruncation)"

definition nullable :: "('a \<Rightarrow> error + 'a) \<Rightarrow> 'a option \<Rightarrow> error + 'a option" where
  "nullable f a =
     (case a of None \<Rightarrow> Inr None | Some x \<Rightarrow> and_then (f x) (\<lambda>y. Inr (Some y)))"

definition not_null :: "'a option \<Rightarrow> error + 'a" where
  "not_null a = (case a of None \<Rightarrow> Inl NotNullViolation | Some x \<Rightarrow> Inr x)"

text \<open>\<open>cur.fetchone()\<close>: a row of the result, \<open>None\<close> when there is none. With several
  rows SQL does not say which comes first; the model takes the first in table order.\<close>

definition fetchone :: "'a list \<Rightarrow> 'a option" where
  "fetchone rows = (case rows of [] \<Rightarrow> None | r # _ \<Rightarrow> Some r)"

text \<open>\<open>self.conn.commit()\<close> on an open connection ends the transaction, also an
  aborted one (which is rolled back: its failed statement changed nothing).\<close>

definition commit :: "store \<Rightarrow> store" where
  "commit s = s\<lparr>status := Ready\<rparr>"

section \<open>Writing: \<open>insert_company\<close>, \<open>insert_vacancy\<close>\<close>

text \<open>
  \<open>cur.execute(statement, parameters)\<close> first puts the parameters into the statement,
  on the client. psycopg2 refuses a string that holds the character NUL with a
  \<open>ValueError\<close>; nothing is sent then, and the transaction is as it was.
\<close>

definition has_nul :: "string option list \<Rightarrow> bool" where
  "has_nul parameters =
     list_ex (\<lambda>p. case p of None \<Rightarrow> False | Some x \<Rightarrow> CHR 0x00 \<in> set x) parameters"

text \<open>\<open>SELECT id FROM companies WHERE name = %s\<close>\<close>

definition select_id_where_name :: "string option \<Rightarrow> store \<Rightarrow> int list" where
  "select_id_where_name n s =
     [c_id c. c \<leftarrow> companies s, is_true (sql_eq (Some (c_name c)) n)]"

text \<open>
  \<open>INSERT INTO companies (name, url, description) VALUES (%s, %s, %s) RETURNING id\<close>.
  A value that does not fit its column is refused when the statement is planned.
  Executing the statement takes the next value of the sequence for \<open>id\<close> and then checks
  \<open>NOT NULL\<close>: a row refused there has used up an id.
\<close>

definition insert_into_companies :: "company \<Rightarrow> store \<Rightarrow> (error + int) \<times> store" where
  "insert_into_companies c s =
     (case and_then (nullable varchar255 (name c)) (\<lambda>n.
           and_then (nullable varchar255 (url c)) (\<lambda>u. Inr (n, u))) of
        Inl e \<Rightarrow> (Inl e, s)
      | Inr (n, u) \<Rightarrow>
          (case not_null n of
             Inl e \<Rightarrow> (Inl e, s\<lparr>companies_id_seq := companies_id_seq s + 1\<rparr>)
           | Inr n' \<Rightarrow>
               (Inr (companies_id_seq s),
                s\<lparr>companies := companies s @
                     [\<lparr>c_id = companies_id_seq s, c_name = n', c_url = u,
                       c_description = description c\<rparr>],
                   companies_id_seq := companies_id_seq s + 1\<rparr>)))"

text \<open>
  \<open>insert_company\<close>: opening the cursor raises on a closed connection, outside the
  \<open>try\<close>. Inside it, every exception (a refused parameter, a refused statement in an
  aborted transaction, a failed \<open>INSERT\<close>) is printed and turned into the result
  \<open>None\<close>; the \<open>finally\<close> clause commits on every path.
\<close>

definition insert_company :: "company \<Rightarrow> store \<Rightarrow> (error + int option) \<times> store" where
  "insert_company c s =
     (if status s = Closed then (Inl InterfaceError, s)
      else if has_nul [name c] \<or> status s = Aborted then (Inr None, commit s)
      else case fetchone (select_id_where_name (name c) s) of
             Some i \<Rightarrow> (Inr (Some i), commit s)
           | None \<Rightarrow>
               if has_nul [name c, url c, description c] then (Inr None, commit s)
               else (case insert_into_companies c s of
                       (Inl e, s') \<Rightarrow> (Inr None, commit s')
                     | (Inr i, s') \<Rightarrow> (Inr (Some i), commit s')))"

text \<open>\<open>SELECT id FROM companies WHERE url = %s\<close>\<close>

definition select_id_where_url :: "string option \<Rightarrow> store \<Rightarrow> int list" where
  "select_id_where_url u s =
     [c_id c. c \<leftarrow> companies s, is_true (sql_eq (c_url c) u)]"

text \<open>The foreign key: a non-null \<open>company_id\<close> must be the id of a row of \<open>companies\<close>.\<close>

definition references_company :: "int option \<Rightarrow> store \<Rightarrow> bool" where
  "references_company cid s =
     (case cid of None \<Rightarrow> True | Some i \<Rightarrow> i \<in> set (map c_id (companies s)))"

text \<open>
  \<open>INSERT INTO vacancies (company_id, title, salary_from, salary_to, url, description)
  VALUES (%s, %s, %s, %s, %s, %s)\<close>. As for \<open>companies\<close>: values that do not fit are
  refused first; then the id is taken from the sequence, and \<open>NOT NULL\<close> and the foreign
  key are checked.
\<close>

definition insert_into_vacancies :: "vacancy \<Rightarrow> store \<Rightarrow> (error + unit) \<times> store" where
  "insert_into_vacancies v s =
     (case and_then (nullable int4 (company_id v)) (\<lambda>cid.
           and_then (nullable varchar255 (title v)) (\<lambda>t.
           and_then (nullable int4 (salary_from v)) (\<lambda>sf.
           and_then (nullable int4 (salary_to v)) (\<lambda>st.
           and_then (nullable varchar255 (vacancy_url v)) (\<lambda>u.
             Inr (cid, t, sf, st, u)))))) of
        Inl e \<Rightarrow> (Inl e, s)
      | Inr (cid, t, sf, st, u) \<Rightarrow>
          (case not_null t of
             Inl e \<Rightarrow> (Inl e, s\<lparr>vacancies_id_seq := vacancies_id_seq s + 1\<rparr>)
           | Inr t' \<Rightarrow>
               if references_company cid s
               then (Inr (),
                     s\<lparr>vacancies := vacancies s @
                          [\<lparr>v_id = vacancies_id_seq s, v_company_id = cid, v_title = t',
                            v_salary_from = sf, v_salary_to = st, v_url = u,
                            v_description = vacancy_description v\<rparr>],
                        vacancies_id_seq := vacancies_id_seq s + 1\<rparr>)
               else (Inl ForeignKeyViolation,
                     s\<lparr>vacancies_id_seq := vacancies_id_seq s + 1\<rparr>)))"

text \<open>
  \<open>insert_vacancy\<close>: the lookup before the \<open>INSERT\<close> reads the table \<open>companies\<close>. When
  it finds a row the function returns that row's id without inserting. No exception is
  caught. After a failed \<open>INSERT\<close> nothing commits or rolls back, so the transaction
  stays aborted.
\<close>

definition insert_vacancy :: "vacancy \<Rightarrow> store \<Rightarrow> (error + int option) \<times> store" where
  "insert_vacancy v s =
     (if status s = Closed then (Inl InterfaceError, s)
      else if has_nul [vacancy_url v] then (Inl ValueError, s)
      else if status s = Aborted then (Inl InFailedSqlTransaction, s)
      else case fetchone (select_id_where_url (vacancy_url v) s) of
             Some i \<Rightarrow> (Inr (Some i), s)
           | None \<Rightarrow>
               if has_nul [title v, vacancy_url v, vacancy_description v]
               then (Inl ValueError, s)
               else (case insert_into_vacancies v s of
                       (Inl e, s') \<Rightarrow> (Inl e, s'\<lparr>status := Aborted\<rparr>)
                     | (Inr _, s') \<Rightarrow> (Inr None, commit s')))"

section \<open>Deleting and closing\<close>

text \<open>\<open>ON DELETE CASCADE\<close>: the rows of \<open>vacancies\<close> that reference a deleted row of
  \<open>companies\<close> go with it.\<close>

definition on_delete_cascade :: "companies_row list \<Rightarrow> vacancies_row list \<Rightarrow> vacancies_row list" where
  "on_delete_cascade deleted vs =
     [v \<leftarrow> vs. \<not> list_ex (\<lambda>c. is_true (sql_eq (v_company_id v) (Some (c_id c)))) deleted]"

definition delete_vacancy :: "int \<Rightarrow> store \<Rightarrow> (error + unit) \<times> store" where
  "delete_vacancy vacancy_id s =
     (if status s = Closed then (Inl InterfaceError, s)
      else if status s = Aborted then (Inl InFailedSqlTransaction, s)
      else (Inr (), commit (s\<lparr>vacancies :=
              [v \<leftarrow> vacancies s. \<not> is_true (sql_eq (Some (v_id v)) (Some vacancy_id))]\<rparr>)))"

definition delete_all_vacancies :: "store \<Rightarrow> (error + unit) \<times> store" where
  "delete_all_vacancies s =
     (if status s = Closed then (Inl InterfaceError, s)
      else if status s = Aborted then (Inl InFailedSqlTransaction, s)
      else (Inr (), commit (s\<lparr>vacancies := []\<rparr>)))"

definition delete_company :: "int \<Rightarrow> store \<Rightarrow> (error + unit) \<times> store" where
  "delete_company cid s =
     (if status s = Closed then (Inl InterfaceError, s)
      else if status s = Aborted then (Inl InFailedSqlTransaction, s)
      else (Inr (), commit (s\<lparr>
              companies := [c \<leftarrow> companies s. \<not> is_true (sql_eq (Some (c_id c)) (Some cid))],
              vacancies := on_delete_cascade
                 [c \<leftarrow> companies s. is_true (sql_eq (Some (c_id c)) (Some cid))]
                 (vacancies s)\<rparr>)))"

definition delete_all_companies :: "store \<Rightarrow> (error + unit) \<times> store" where
  "delete_all_companies s =
     (if status s = Closed then (Inl InterfaceError, s)
      else if status s = Aborted then (Inl InFailedSqlTransaction, s)
      else (Inr (), commit (s\<lparr>companies := [],
              vacancies := on_delete_cascade (companies s) (vacancies s)\<rparr>)))"

definition close :: "store \<Rightarrow> store" where
  "close s = s\<lparr>status := Closed\<rparr>"

section \<open>Reading\<close>

text \<open>
  \<open>cur.fetchall()\<close> returns the rows of the result as a list. None of the queries has an
  \<open>ORDER BY\<close>, so the statement fixes which rows there are and how often, not their
  order: the result of a query is the set of the lists that \<open>fetchall\<close> may return.
\<close>

definition fetchall :: "'a list \<Rightarrow> 'a list set" where
  "fetchall rows = {res. mset res = mset rows}"

text \<open>\<open>FROM vacancies JOIN companies ON vacancies.company_id = companies.id\<close>\<close>

definition vacancies_join_companies :: "store \<Rightarrow> (vacancies_row \<times> companies_row) list" where
  "vacancies_join_companies s =
     [(v, c). v \<leftarrow> vacancies s, c \<leftarrow> companies s,
              is_true (sql_eq (v_company_id v) (Some (c_id c)))]"

text \<open>\<open>FROM companies LEFT JOIN vacancies ON companies.id = vacancies.company_id\<close>: a
  company without a matching vacancy gives one row whose vacancy columns are null.\<close>

definition companies_left_join_vacancies ::
  "store \<Rightarrow> (companies_row \<times> vacancies_row option) list" where
  "companies_left_join_vacancies s =
     concat (map (\<lambda>c.
       let m = [v \<leftarrow> vacancies s. is_true (sql_eq (Some (c_id c)) (v_company_id v))]
       in if m = [] then [(c, None)] else map (\<lambda>v. (c, Some v)) m) (companies s))"

text \<open>\<open>COUNT(column)\<close> counts the rows where the column is not null.\<close>

definition sql_count :: "'a option list \<Rightarrow> nat" where
  "sql_count xs = length [x. Some x \<leftarrow> xs]"

text \<open>\<open>SELECT companies.name, COUNT(vacancies.id) ... GROUP BY companies.name\<close>: one row
  for each name that occurs.\<close>

definition group_by_name_count ::
  "(companies_row \<times> vacancies_row option) list \<Rightarrow> (string \<times> nat) list" where
  "group_by_name_count rows =
     map (\<lambda>n. (n, sql_count [map_option v_id (snd r). r \<leftarrow> rows, c_name (fst r) = n]))
       (remdups (map (\<lambda>r. c_name (fst r)) rows))"

definition get_companies_and_vacancies_count :: "store \<Rightarrow> error + (string \<times> nat) list set" where
  "get_companies_and_vacancies_count s =
     (if status s = Closed then Inl InterfaceError
      else if status s = Aborted then Inl InFailedSqlTransaction
      else Inr (fetchall (group_by_name_count (companies_left_join_vacancies s))))"

definition get_all_vacancies ::
  "store \<Rightarrow> error + (string \<times> string \<times> int option \<times> int option \<times> string option) list set" where
  "get_all_vacancies s =
     (if status s = Closed then Inl InterfaceError
      else if status s = Aborted then Inl InFailedSqlTransaction
      else Inr (fetchall [(c_name c, v_title v, v_salary_from v, v_salary_to v, v_url v).
                          (v, c) \<leftarrow> vacancies_join_companies s]))"

text \<open>
  \<open>SELECT AVG((salary_from + salary_to) / 2.0) FROM vacancies
  WHERE salary_from IS NOT NULL AND salary_to IS NOT NULL\<close>. The sum is a sum of two
  \<open>INT\<close> columns. A statement that raises leaves the transaction aborted.
\<close>

definition get_avg_salary ::
  "(rat list \<Rightarrow> nat) \<Rightarrow> store \<Rightarrow> (error + rat option) \<times> store" where
  "get_avg_salary result_scale s =
     (if status s = Closed then (Inl InterfaceError, s)
      else if status s = Aborted then (Inl InFailedSqlTransaction, s)
      else case collect (map (\<lambda>v. int4pl (v_salary_from v) (v_salary_to v))
                  [v \<leftarrow> vacancies s.
                     is_true (sql_and (is_not_null (v_salary_from v))
                                      (is_not_null (v_salary_to v)))]) of
             Inl e \<Rightarrow> (Inl e, s\<lparr>status := Aborted\<rparr>)
           | Inr totals \<Rightarrow> (Inr (sql_avg result_scale (map div_2_0 totals)), s))"

text \<open>
  \<open>ILIKE\<close>: in the pattern \<open>%\<close> stands for any run of characters, \<open>_\<close> for any one
  character, and a backslash takes the character after it literally; a character of
  the pattern that stands for itself matches a character of the string with the same
  lower case. Which characters have a lower case, and which, is a matter of the locale
  of the database: \<open>lower\<close> is the lower-casing of one character. (A pattern that ends
  in a lone backslash makes PostgreSQL raise; the patterns built below end in \<open>%\<close>.)
\<close>

fun ilike :: "(char \<Rightarrow> char) \<Rightarrow> string \<Rightarrow> string \<Rightarrow> bool" where
  "ilike lower t [] = (t = [])"
| "ilike lower t (p # ps) =
     (if p = CHR ''%'' then
        ilike lower t ps \<or> (case t of [] \<Rightarrow> False | _ # ts \<Rightarrow> ilike lower ts (p # ps))
      else if p = CHR ''_'' then
        (case t of [] \<Rightarrow> False | _ # ts \<Rightarrow> ilike lower ts ps)
      else if p = CHR 0x5C then
        (case ps of [] \<Rightarrow> False
         | q # qs \<Rightarrow>
             (case t of [] \<Rightarrow> False | c # ts \<Rightarrow> lower c = lower q \<and> ilike lower ts qs))
      else (case t of [] \<Rightarrow> False | c # ts \<Rightarrow> lower c = lower p \<and> ilike lower ts ps))"

text \<open>\<open>... WHERE vacancies.title ILIKE %s\<close> with the parameter \<open>f'%{keyword}%'\<close>\<close>

definition get_vacancies_with_keyword ::
  "(char \<Rightarrow> char) \<Rightarrow> string \<Rightarrow> store
     \<Rightarrow> error + (string \<times> string \<times> string option) list set" where
  "get_vacancies_with_keyword lower keyword s =
     (if status s = Closed then Inl InterfaceError
      else if has_nul [Some (''%'' @ keyword @ ''%'')] then Inl ValueError
      else if status s = Aborted then Inl InFailedSqlTransaction
      else Inr (fetchall [(c_name c, v_title v, v_url v).
                          (v, c) \<leftarrow> vacancies_join_companies s,
                          ilike lower (v_title v) (''%'' @ keyword @ ''%'')]))"

text \<open>\<open>WHERE (vacancies.salary_from + vacancies.salary_to) / 2.0 > %s\<close>\<close>

definition where_midpoint_gt :: "rat \<Rightarrow> vacancies_row \<Rightarrow> error + bool" where
  "where_midpoint_gt avg_salary v =
     and_then (int4pl (v_salary_from v) (v_salary_to v)) (\<lambda>sm.
       Inr (is_true (sql_gt (div_2_0 sm) (Some avg_salary))))"

definition get_vacancies_with_higher_salary ::
  "(rat list \<Rightarrow> nat) \<Rightarrow> store
     \<Rightarrow> (error + (string \<times> string \<times> int option \<times> int option \<times> string option) list set)
        \<times> store" where
  "get_vacancies_with_higher_salary result_scale s =
     (case get_avg_salary result_scale s of
        (Inl e, s') \<Rightarrow> (Inl e, s')
      | (Inr None, s') \<Rightarrow> (Inr {[]}, s')
      | (Inr (Some avg_salary), s') \<Rightarrow>
          if status s' = Closed then (Inl InterfaceError, s')
          else if status s' = Aborted then (Inl InFailedSqlTransaction, s')
          else (case collect (map (\<lambda>(v, c). and_then (where_midpoint_gt avg_salary v)
                                     (\<lambda>b. Inr ((v, c), b)))
                         (vacancies_join_companies s')) of
                  Inl e \<Rightarrow> (Inl e, s'\<lparr>status := Aborted\<rparr>)
                | Inr rows \<Rightarrow>
                    (Inr (fetchall [(c_name c, v_title v, v_salary_from v, v_salary_to v,
                                     v_url v). ((v, c), b) \<leftarrow> rows, b]), s')))"

section \<open>\<open>DBSaver\<close>\<close>

definition save_company :: "company \<Rightarrow> store \<Rightarrow> (error + int option) \<times> store" where
  "save_company c s = insert_company c s"

text \<open>\<open>save_vacancies\<close> calls \<open>insert_vacancy\<close> and returns nothing.\<close>

definition save_vacancies :: "vacancy \<Rightarrow> store \<Rightarrow> (error + unit) \<times> store" where
  "save_vacancies v s =
     (case insert_vacancy v s of
        (Inl e, s') \<Rightarrow> (Inl e, s')
      | (Inr _, s') \<Rightarrow> (Inr (), s'))"

text \<open>\<open>record_id: Optional[int] = None\<close>, and \<open>if record_id:\<close> is false for \<open>None\<close>
  and for \<open>0\<close>.\<close>

definition DBSaver_delete_company :: "int option \<Rightarrow> store \<Rightarrow> (error + unit) \<times> store" where
  "DBSaver_delete_company record_id s =
     (case record_id of
        None \<Rightarrow> delete_all_companies s
      | Some n \<Rightarrow> if n \<noteq> 0 then delete_company n s else delete_all_companies s)"

definition DBSaver_delete_vacancy :: "int option \<Rightarrow> store \<Rightarrow> (error + unit) \<times> store" where
  "DBSaver_delete_vacancy record_id s =
     (case record_id of
        None \<Rightarrow> delete_all_vacancies s
      | Some n \<Rightarrow> if n \<noteq> 0 then delete_vacancy n s else delete_all_vacancies s)"

text \<open>The calls of \<open>DBManager\<close> that can change the store (the methods of \<open>DBSaver\<close>
  pass on to them), and the store after one of them.\<close>

datatype operation =
    Insert_company company
  | Insert_vacancy vacancy
  | Delete_vacancy int
  | Delete_all_vacancies
  | Delete_company int
  | Delete_all_companies
  | Get_avg_salary
  | Get_vacancies_with_higher_salary
  | Close

fun perform :: "(rat list \<Rightarrow> nat) \<Rightarrow> operation \<Rightarrow> store \<Rightarrow> store" where
  "perform result_scale (Insert_company c) s = snd (insert_company c s)"
| "perform result_scale (Insert_vacancy v) s = snd (insert_vacancy v s)"
| "perform result_scale (Delete_vacancy vacancy_id) s = snd (delete_vacancy vacancy_id s)"
| "perform result_scale Delete_all_vacancies s = snd (delete_all_vacancies s)"
| "perform result_scale (Delete_company cid) s = snd (delete_company cid s)"
| "perform result_scale Delete_all_companies s = snd (delete_all_companies s)"
| "perform result_scale Get_avg_salary s = snd (get_avg_salary result_scale s)"
| "perform result_scale Get_vacancies_with_higher_salary s =
     snd (get_vacancies_with_higher_salary result_scale s)"
| "perform result_scale Close s = close s"

text \<open>The records that the ingestion loop of \<open>main.py\<close> builds for a company and for
  one of its listings.\<close>

definition acme :: company where
  "acme = \<lparr>name = Some ''Acme'', url = None, description = None\<rparr>"

definition listing :: "int option \<Rightarrow> vacancy" where
  "listing cid = \<lparr>company_id = cid, title = Some ''Engineer'', salary_from = Some 1000,
     salary_to = Some 3000, vacancy_url = Some ''https://api.hh.ru/vacancies/1'',
     vacancy_description = Some ''''\<rparr>"

text \<open>The store after saving the company and one listing of it.\<close>

definition saved :: store where
  "saved = snd (insert_vacancy (listing (Some 1)) (snd (insert_company acme init_store)))"

text \<open>A name of 256 letters.\<close>

definition long_name :: string where
  "long_name = replicate 256 (CHR ''a'')"

text \<open>
  The words of the specification for the average: the midpoint
  \<open>(salary_from + salary_to) / 2\<close> of every row whose two bounds are both present, and
  the arithmetic mean of a list, absent for the empty list. \<open>numeric_mean\<close> is that
  mean as a \<open>numeric\<close> division returns it.
\<close>

fun midpoints :: "vacancies_row list \<Rightarrow> rat list" where
  "midpoints [] = []"
| "midpoints (v # vs) =
     (case (v_salary_from v, v_salary_to v) of
        (Some a, Some b) \<Rightarrow> (of_int a + of_int b) / 2 # midpoints vs
      | _ \<Rightarrow> midpoints vs)"

definition mean :: "rat list \<Rightarrow> rat option" where
  "mean xs = (if xs = [] then None else Some (sum_list xs / of_nat (length xs)))"

definition numeric_mean :: "(rat list \<Rightarrow> nat) \<Rightarrow> rat list \<Rightarrow> rat option" where
  "numeric_mean result_scale xs =
     map_option (round_numeric (result_scale xs)) (mean xs)"

text \<open>The sum of the two bounds of a row fits a 32-bit integer.\<close>

definition sum_fits :: "vacancies_row \<Rightarrow> bool" where
  "sum_fits v =
     (case (v_salary_from v, v_salary_to v) of
        (Some a, Some b) \<Rightarrow> - 2147483648 \<le> a + b \<and> a + b \<le> 2147483647
      | _ \<Rightarrow> True)"

text \<open>A listing whose two bounds fit \<open>INT\<close> each, but not their sum.\<close>

definition director :: vacancy where
  "director = \<lparr>company_id = Some 1, title = Some ''Director'',
     salary_from = Some 2000000000, salary_to = Some 2000000000,
     vacancy_url = Some ''https://api.hh.ru/vacancies/2'', vacancy_description = Some ''''\<rparr>"

text \<open>A name of 255 letters and a space, the company of that name, the company whose
  name is the 255 letters, and the store after saving the first one twice.\<close>

definition padded_name :: string where
  "padded_name = replicate 255 (CHR ''a'') @ '' ''"

definition padded :: company where
  "padded = \<lparr>name = Some padded_name, url = None, description = None\<rparr>"

definition trimmed :: company where
  "trimmed = \<lparr>name = Some (replicate 255 (CHR ''a'')), url = None, description = None\<rparr>"

definition doubled :: store where
  "doubled = snd (insert_company padded (snd (insert_company padded init_store)))"

text \<open>Two selections of the number of decimal places for the examples: sixteen, and
  twenty.\<close>

definition sixteen_places :: "rat list \<Rightarrow> nat" where
  "sixteen_places xs = 16"

definition twenty_places :: "rat list \<Rightarrow> nat" where
  "twenty_places xs = 20"

text \<open>The words of the specification for the filter: the row has both bounds and its
  midpoint is strictly above the average.\<close>

definition above :: "rat \<Rightarrow> vacancies_row \<Rightarrow> bool" where
  "above avg_salary v =
     (case (v_salary_from v, v_salary_to v) of
        (Some a, Some b) \<Rightarrow> (of_int a + of_int b) / 2 > avg_salary
      | _ \<Rightarrow> False)"

text \<open>A listing saved without a company, as the ingestion loop does when
  \<open>save_company\<close> has returned \<open>None\<close>.\<close>

definition manager :: vacancy where
  "manager = \<lparr>company_id = None, title = Some ''Manager'',
     salary_from = Some 3000, salary_to = Some 4000,
     vacancy_url = Some ''https://api.hh.ru/vacancies/3'', vacancy_description = Some ''''\<rparr>"

text \<open>Rows with the midpoints 1000, 2000 and 3000, and a row without bounds, all of
  the company with id 1.\<close>

definition graded :: "vacancies_row list" where
  "graded = [
    \<lparr>v_id = 1, v_company_id = Some 1, v_title = ''Junior'', v_salary_from = Some 500,
      v_salary_to = Some 1500, v_url = None, v_description = None\<rparr>,
    \<lparr>v_id = 2, v_company_id = Some 1, v_title = ''Middle'', v_salary_from = Some 2000,
      v_salary_to = Some 2000, v_url = None, v_description = None\<rparr>,
    \<lparr>v_id = 3, v_company_id = Some 1, v_title = ''Senior'', v_salary_from = Some 2500,
      v_salary_to = Some 3500, v_url = None, v_description = None\<rparr>,
    \<lparr>v_id = 4, v_company_id = Some 1, v_title = ''Intern'', v_salary_from = None,
      v_salary_to = Some 9000, v_url = None, v_description = None\<rparr>]"

text \<open>Rows with the midpoints 1, 2 and 2.\<close>

definition thirds :: "vacancies_row list" where
  "thirds = [
    \<lparr>v_id = 1, v_company_id = Some 1, v_title = ''Junior'', v_salary_from = Some 1,
      v_salary_to = Some 1, v_url = None, v_description = None\<rparr>,
    \<lparr>v_id = 2, v_company_id = Some 1, v_title = ''Middle'', v_salary_from = Some 1,
      v_salary_to = Some 3, v_url = None, v_description = None\<rparr>,
    \<lparr>v_id = 3, v_company_id = Some 1, v_title = ''Senior'', v_salary_from = Some 2,
      v_salary_to = Some 2, v_url = None, v_description = None\<rparr>]"

text \<open>The store after saving, next to the company and its listing, a listing without
  a company.\<close>

definition unowned :: store where
  "unowned = snd (insert_vacancy manager saved)"

text \<open>The foreign key holds in a store: every row of \<open>vacancies\<close> has a null
  \<open>company_id\<close> or the id of a row of \<open>companies\<close>.\<close>

definition referential_integrity :: "store \<Rightarrow> bool" where
  "referential_integrity s =
     list_all (\<lambda>v. references_company (v_company_id v) s) (vacancies s)"

text \<open>The values of a listing fit the types of their columns: the integers \<open>INT\<close>,
  the title and the url \<open>VARCHAR(255)\<close>.\<close>

definition coercible :: "vacancy \<Rightarrow> bool" where
  "coercible v = (\<not> isl (nullable int4 (company_id v)) \<and>
                  \<not> isl (nullable varchar255 (title v)) \<and>
                  \<not> isl (nullable int4 (salary_from v)) \<and>
                  \<not> isl (nullable int4 (salary_to v)) \<and>
                  \<not> isl (nullable varchar255 (vacancy_url v)))"

text \<open>A store with two companies: a listing of each, and a listing without a
  company.\<close>

definition staffed :: store where
  "staffed = \<lparr>companies =
       [\<lparr>c_id = 1, c_name = ''Acme'', c_url = None, c_description = None\<rparr>,
        \<lparr>c_id = 2, c_name = ''Globex'', c_url = None, c_description = None\<rparr>],
     vacancies =
       [\<lparr>v_id = 1, v_company_id = Some 1, v_title = ''Senior Engineer'',
         v_salary_from = Some 1000, v_salary_to = Some 3000, v_url = None,
         v_description = None\<rparr>,
        \<lparr>v_id = 2, v_company_id = Some 2, v_title = ''Analyst'',
         v_salary_from = None, v_salary_to = None, v_url = None, v_description = None\<rparr>,
        \<lparr>v_id = 3, v_company_id = None, v_title = ''QA'',
         v_salary_from = None, v_salary_to = None, v_url = None, v_description = None\<rparr>],
     companies_id_seq = 3, vacancies_id_seq = 4, status = Ready\<rparr>"

text \<open>The words of the specification for the counts: the number of vacancies of the
  companies with a given name.\<close>

definition vacancy_count :: "store \<Rightarrow> string \<Rightarrow> nat" where
  "vacancy_count s n =
     length [v. c \<leftarrow> companies s, v \<leftarrow> vacancies s, c_name c = n,
                v_company_id v = Some (c_id c)]"

text \<open>The characters that a pattern of \<open>ILIKE\<close> does not take literally.\<close>

definition metachar :: "char \<Rightarrow> bool" where
  "metachar c = (c = CHR ''%'' \<or> c = CHR ''_'' \<or> c = CHR 0x5C)"

text \<open>The lower-casing of the locale \<open>C\<close>: the letters A to Z, and nothing else.\<close>

definition lower_char :: "char \<Rightarrow> char" where
  "lower_char c =
     (let n = (of_char c :: nat) in if 65 \<le> n \<and> n \<le> 90 then char_of (n + 32) else c)"

text \<open>A lower-casing that also knows the letter \<open>E\<close> with acute accent (the codes 201
  and 233 of LATIN1).\<close>

definition lower_latin1 :: "char \<Rightarrow> char" where
  "lower_latin1 c = (if c = CHR 0xC9 then CHR 0xE9 else lower_char c)"

text \<open>The store with Acme and one listing of it, with a title that ends in the capital
  letter \<open>E\<close> with acute accent.\<close>

definition cafe :: store where
  "cafe = \<lparr>companies =
       [\<lparr>c_id = 1, c_name = ''Acme'', c_url = None, c_description = None\<rparr>],
     vacancies =
       [\<lparr>v_id = 1, v_company_id = Some 1, v_title = ''CAF'' @ [CHR 0xC9],
         v_salary_from = None, v_salary_to = None, v_url = None, v_description = None\<rparr>],
     companies_id_seq = 2, vacancies_id_seq = 2, status = Ready\<rparr>"

section \<open>Properties\<close>

lemmas sql_defs = is_true_def sql_eq_def and_then_def nullable_def not_null_def
  varchar255_def int4_def fetchone_def commit_def references_company_def has_nul_def

text \<open>
  C1. The lookup of \<open>insert_vacancy\<close> is made in \<open>companies\<close>, whose rows have a null
  \<open>url\<close> when they come from the ingestion loop, so it never finds the listing saved
  before: saving the same listing twice after saving its company leaves two rows of
  \<open>vacancies\<close> with that url (the second call returns \<open>None\<close> like the first).
\<close>

theorem insert_vacancy_twice_two_rows:
  "fst (insert_company acme init_store) = Inr (Some 1) \<and>
   fst (insert_vacancy (listing (Some 1))
          (snd (insert_vacancy (listing (Some 1)) (snd (insert_company acme init_store)))))
     = Inr None \<and>
   length [r \<leftarrow> vacancies (snd (insert_vacancy (listing (Some 1))
              (snd (insert_vacancy (listing (Some 1))
                 (snd (insert_company acme init_store)))))).
           v_url r = Some ''https://api.hh.ru/vacancies/1''] = 2"
  by (simp add: insert_company_def insert_vacancy_def insert_into_companies_def
      insert_into_vacancies_def select_id_where_name_def select_id_where_url_def
      init_store_def acme_def listing_def sql_defs)

subsection \<open>Helper facts\<close>

lemma commit_Ready: "status s = Ready \<Longrightarrow> commit s = s"
  by (cases s) (simp add: commit_def)

lemma saved_eq:
  "saved = \<lparr>companies =
       [\<lparr>c_id = 1, c_name = ''Acme'', c_url = None, c_description = None\<rparr>],
     vacancies =
       [\<lparr>v_id = 1, v_company_id = Some 1, v_title = ''Engineer'', v_salary_from = Some 1000,
         v_salary_to = Some 3000, v_url = Some ''https://api.hh.ru/vacancies/1'',
         v_description = Some ''''\<rparr>],
     companies_id_seq = 2, vacancies_id_seq = 2, status = Ready\<rparr>"
  by (simp add: saved_def insert_company_def insert_vacancy_def insert_into_companies_def
      insert_into_vacancies_def select_id_where_name_def select_id_where_url_def
      init_store_def acme_def listing_def sql_defs)

lemma long_name_simps:
  "length long_name = 256" "drop 255 long_name = [CHR ''a'']"
  "CHR 0x00 \<notin> set long_name"
  by (simp_all add: long_name_def)

lemma padded_name_simps:
  "length padded_name = 256" "drop 255 padded_name = '' ''"
  "take 255 padded_name = replicate 255 (CHR ''a'')"
  "CHR 0x00 \<notin> set padded_name"
  by (simp_all add: padded_name_def)

lemma concat_map_if:
  "concat (map (\<lambda>x. if P x then [f x] else []) xs) = map f (filter P xs)"
  by (induction xs) simp_all

lemma select_id_where_name_Some:
  "select_id_where_name (Some n) s = map c_id [r \<leftarrow> companies s. c_name r = n]"
  by (simp add: select_id_where_name_def is_true_def sql_eq_def concat_map_if)

subsection \<open>\<open>insert_company\<close> when the store refuses\<close>

lemma insert_into_companies_fails:
  "(\<exists>e. fst (insert_into_companies c s) = Inl e) \<longleftrightarrow>
     (name c = None \<or> (\<exists>n. name c = Some n \<and> varchar255 n = Inl StringDataRightTruncation)
      \<or> (\<exists>u. url c = Some u \<and> varchar255 u = Inl StringDataRightTruncation))"
  by (auto simp: insert_into_companies_def and_then_def nullable_def not_null_def
      varchar255_def split: option.splits sum.splits if_splits)

lemma insert_into_companies_tables:
  "vacancies (snd (insert_into_companies c s)) = vacancies s \<and>
   status (snd (insert_into_companies c s)) = status s \<and>
   set (companies s) \<subseteq> set (companies (snd (insert_into_companies c s))) \<and>
   (\<forall>e. fst (insert_into_companies c s) = Inl e \<longrightarrow>
      companies (snd (insert_into_companies c s)) = companies s)"
  by (auto simp: insert_into_companies_def and_then_def split: sum.splits prod.splits)

text \<open>
  C6, as stated, fails: a name of 256 letters does not fit \<open>VARCHAR(255)\<close>, the
  \<open>INSERT\<close> raises, and \<open>insert_company\<close> returns \<open>None\<close> instead of raising.
\<close>

theorem insert_company_sentinel_counterexample:
  "fst (insert_into_companies \<lparr>name = Some long_name, url = None, description = None\<rparr>
          init_store) = Inl StringDataRightTruncation \<and>
   fst (insert_company \<lparr>name = Some long_name, url = None, description = None\<rparr> init_store)
     = Inr None"
  by (simp add: insert_company_def insert_into_companies_def select_id_where_name_def
      long_name_simps init_store_def sql_defs)

text \<open>
  C6, amended. On a closed connection \<open>insert_company\<close> raises \<open>InterfaceError\<close>. On an
  open one it returns \<open>None\<close>, without raising, without a new row and with the
  transaction ended, in each of these cases: the transaction is aborted; the name holds
  NUL; no row has the name, and a parameter of the \<open>INSERT\<close> holds NUL or the \<open>INSERT\<close>
  violates a constraint (the name is null, or the name or the url does not fit
  \<open>VARCHAR(255)\<close>). A null name has then used up an id of the sequence.
\<close>

theorem insert_company_failure:
  "(status s = Closed \<longrightarrow> insert_company c s = (Inl InterfaceError, s)) \<and>
   (status s \<noteq> Closed \<and>
    (status s = Aborted \<or> has_nul [name c] \<or>
     select_id_where_name (name c) s = [] \<and>
       (has_nul [name c, url c, description c] \<or> name c = None \<or>
        (\<exists>n. name c = Some n \<and> varchar255 n = Inl StringDataRightTruncation) \<or>
        (\<exists>u. url c = Some u \<and> varchar255 u = Inl StringDataRightTruncation)))
    \<longrightarrow> fst (insert_company c s) = Inr None \<and>
        companies (snd (insert_company c s)) = companies s \<and>
        vacancies (snd (insert_company c s)) = vacancies s \<and>
        status (snd (insert_company c s)) = Ready) \<and>
   (status s = Ready \<and> name c = None \<and> \<not> has_nul [url c, description c] \<and>
    (\<forall>u. url c = Some u \<longrightarrow> varchar255 u \<noteq> Inl StringDataRightTruncation)
    \<longrightarrow> insert_company c s
          = (Inr None, s\<lparr>companies_id_seq := companies_id_seq s + 1\<rparr>))"
proof (intro conjI impI)
  assume "status s = Closed"
  then show "insert_company c s = (Inl InterfaceError, s)"
    by (simp add: insert_company_def)
next
  assume a: "status s \<noteq> Closed \<and>
    (status s = Aborted \<or> has_nul [name c] \<or>
     select_id_where_name (name c) s = [] \<and>
       (has_nul [name c, url c, description c] \<or> name c = None \<or>
        (\<exists>n. name c = Some n \<and> varchar255 n = Inl StringDataRightTruncation) \<or>
        (\<exists>u. url c = Some u \<and> varchar255 u = Inl StringDataRightTruncation)))"
  have r: "insert_company c s = (Inr None, commit s) \<or>
           (\<exists>e. fst (insert_into_companies c s) = Inl e) \<and>
           insert_company c s = (Inr None, commit (snd (insert_into_companies c s)))"
  proof (cases "status s = Aborted \<or> has_nul [name c]")
    case True
    then have "has_nul [name c] \<or> status s = Aborted" by blast
    with a show ?thesis by (simp add: insert_company_def)
  next
    case False
    then have f: "\<not> (has_nul [name c] \<or> status s = Aborted)" by blast
    from False a have sel: "select_id_where_name (name c) s = []" by blast
    show ?thesis
    proof (cases "has_nul [name c, url c, description c]")
      case True
      with a f sel show ?thesis
        by (simp add: insert_company_def fetchone_def)
    next
      case nn: False
      with a False obtain e where e: "fst (insert_into_companies c s) = Inl e"
        using insert_into_companies_fails [of c s] by blast
      with a f sel nn show ?thesis
        by (cases "insert_into_companies c s")
           (simp add: insert_company_def fetchone_def)
    qed
  qed
  from r insert_into_companies_tables [of c s]
  have "fst (insert_company c s) = Inr None \<and>
        companies (snd (insert_company c s)) = companies s \<and>
        vacancies (snd (insert_company c s)) = vacancies s \<and>
        status (snd (insert_company c s)) = Ready"
    by (auto simp: commit_def)
  then show "fst (insert_company c s) = Inr None"
    and "companies (snd (insert_company c s)) = companies s"
    and "vacancies (snd (insert_company c s)) = vacancies s"
    and "status (snd (insert_company c s)) = Ready"
    by simp_all
next
  assume a: "status s = Ready \<and> name c = None \<and> \<not> has_nul [url c, description c] \<and>
    (\<forall>u. url c = Some u \<longrightarrow> varchar255 u \<noteq> Inl StringDataRightTruncation)"
  then have u: "\<exists>u'. nullable varchar255 (url c) = Inr u'"
    by (cases "url c") (auto simp: nullable_def and_then_def varchar255_def split: if_splits)
  from a have n: "\<not> has_nul [name c]" "\<not> has_nul [name c, url c, description c]"
    by (simp_all add: has_nul_def)
  from a have sel: "select_id_where_name (name c) s = []"
    by (simp add: select_id_where_name_def is_true_def sql_eq_def)
  from a u have ins: "insert_into_companies c s
      = (Inl NotNullViolation, s\<lparr>companies_id_seq := companies_id_seq s + 1\<rparr>)"
    by (auto simp: insert_into_companies_def nullable_def and_then_def not_null_def)
  from a have c: "commit (s\<lparr>companies_id_seq := companies_id_seq s + 1\<rparr>)
      = s\<lparr>companies_id_seq := companies_id_seq s + 1\<rparr>"
    by (simp add: commit_Ready)
  from a n sel ins c show "insert_company c s
          = (Inr None, s\<lparr>companies_id_seq := companies_id_seq s + 1\<rparr>)"
    by (simp add: insert_company_def fetchone_def)
qed

text \<open>On the closed and on the aborted connection; and on the empty store a company
  without a name is refused, after which \<open>Acme\<close> gets the id 2.\<close>

theorem insert_company_failure_witness:
  "insert_company acme (close init_store) = (Inl InterfaceError, close init_store) \<and>
   fst (insert_company acme (init_store\<lparr>status := Aborted\<rparr>)) = Inr None \<and>
   insert_company \<lparr>name = None, url = None, description = None\<rparr> init_store
     = (Inr None, init_store\<lparr>companies_id_seq := 2\<rparr>) \<and>
   fst (insert_company acme
          (snd (insert_company \<lparr>name = None, url = None, description = None\<rparr> init_store)))
     = Inr (Some 2)"
proof -
  have 1: "status (close init_store) = Closed" by (simp add: close_def)
  have 2: "status (init_store\<lparr>status := Aborted\<rparr>) \<noteq> Closed \<and>
           status (init_store\<lparr>status := Aborted\<rparr>) = Aborted" by simp
  have 3: "status init_store = Ready \<and>
     name \<lparr>name = None, url = None, description = None\<rparr> = None \<and>
     \<not> has_nul [url \<lparr>name = None, url = None, description = None\<rparr>,
                description \<lparr>name = None, url = None, description = None\<rparr>] \<and>
     (\<forall>u. url \<lparr>name = None, url = None, description = None\<rparr> = Some u \<longrightarrow>
          varchar255 u \<noteq> Inl StringDataRightTruncation)"
    by (simp add: init_store_def has_nul_def)
  have 4: "companies_id_seq init_store + 1 = 2" by (simp add: init_store_def)
  note w = insert_company_failure [of "close init_store" acme, THEN conjunct1, rule_format, OF 1]
    insert_company_failure [of "init_store\<lparr>status := Aborted\<rparr>" acme,
      THEN conjunct2, THEN conjunct1]
    insert_company_failure [of init_store "\<lparr>name = None, url = None, description = None\<rparr>",
      THEN conjunct2, THEN conjunct2, rule_format, OF 3]
  have 5: "fst (insert_company acme (init_store\<lparr>companies_id_seq := 2\<rparr>)) = Inr (Some 2)"
    by (simp add: insert_company_def insert_into_companies_def select_id_where_name_def
        init_store_def acme_def sql_defs)
  from w(2) 2 have 6: "fst (insert_company acme (init_store\<lparr>status := Aborted\<rparr>)) = Inr None"
    by blast
  show ?thesis
    using w(1) w(3) 4 5 6 by simp
qed

subsection \<open>\<open>DBSaver\<close>: deleting with the id 0\<close>

text \<open>
  C10. \<open>DBSaver.delete_vacancy(0)\<close> and \<open>DBSaver.delete_company(0)\<close> do what the calls
  without an id do: they run \<open>delete_all_vacancies\<close> and \<open>delete_all_companies\<close>, so on a
  usable connection no vacancy, respectively no company, is left. Only an id other
  than 0 reaches the delete of a single row.
\<close>

theorem DBSaver_delete_zero_deletes_all:
  "DBSaver_delete_vacancy (Some 0) s = delete_all_vacancies s \<and>
   DBSaver_delete_company (Some 0) s = delete_all_companies s \<and>
   DBSaver_delete_vacancy (Some 0) s = DBSaver_delete_vacancy None s \<and>
   DBSaver_delete_company (Some 0) s = DBSaver_delete_company None s \<and>
   (n \<noteq> 0 \<longrightarrow> DBSaver_delete_vacancy (Some n) s = delete_vacancy n s \<and>
                DBSaver_delete_company (Some n) s = delete_company n s) \<and>
   (status s = Ready \<longrightarrow>
      vacancies (snd (DBSaver_delete_vacancy (Some 0) s)) = [] \<and>
      companies (snd (DBSaver_delete_company (Some 0) s)) = [])"
  by (simp add: DBSaver_delete_vacancy_def DBSaver_delete_company_def
      delete_all_vacancies_def delete_all_companies_def commit_def)

text \<open>On the store with one saved listing: deleting the vacancy with id 0 through
  \<open>DBManager\<close> keeps the listing, the call through \<open>DBSaver\<close> removes it.\<close>

theorem DBSaver_delete_zero_deletes_all_witness:
  "status saved = Ready \<and> length (vacancies saved) = 1 \<and>
   vacancies (snd (delete_vacancy 0 saved)) = vacancies saved \<and>
   vacancies (snd (DBSaver_delete_vacancy (Some 0) saved)) = [] \<and>
   companies (snd (DBSaver_delete_company (Some 0) saved)) = []"
proof -
  have r: "status saved = Ready" by (simp add: saved_eq)
  have "vacancies (snd (DBSaver_delete_vacancy (Some 0) saved)) = [] \<and>
        companies (snd (DBSaver_delete_company (Some 0) saved)) = []"
    using DBSaver_delete_zero_deletes_all [of saved 1] r by blast
  moreover have "length (vacancies saved) = 1 \<and>
        vacancies (snd (delete_vacancy 0 saved)) = vacancies saved"
    by (simp add: saved_eq delete_vacancy_def sql_defs)
  ultimately show ?thesis using r by blast
qed

subsection \<open>\<open>insert_company\<close> called twice\<close>

lemma padded_neq: "replicate 255 (CHR ''a'') \<noteq> padded_name"
proof
  assume "replicate 255 (CHR ''a'') = padded_name"
  then have "length (replicate 255 (CHR ''a'')) = length padded_name" by simp
  then show False by (simp add: padded_name_simps)
qed

lemma twice_padded:
  "insert_company \<lparr>name = Some padded_name, url = None, description = None\<rparr> init_store
     = (Inr (Some 1),
        \<lparr>companies = [\<lparr>c_id = 1, c_name = replicate 255 (CHR ''a''), c_url = None,
                        c_description = None\<rparr>],
         vacancies = [], companies_id_seq = 2, vacancies_id_seq = 1, status = Ready\<rparr>)"
  "insert_company \<lparr>name = Some padded_name, url = None, description = None\<rparr>
     \<lparr>companies = [\<lparr>c_id = 1, c_name = replicate 255 (CHR ''a''), c_url = None,
                     c_description = None\<rparr>],
      vacancies = [], companies_id_seq = 2, vacancies_id_seq = 1, status = Ready\<rparr>
     = (Inr (Some 2),
        \<lparr>companies = [\<lparr>c_id = 1, c_name = replicate 255 (CHR ''a''), c_url = None,
                        c_description = None\<rparr>,
                      \<lparr>c_id = 2, c_name = replicate 255 (CHR ''a''), c_url = None,
                        c_description = None\<rparr>],
         vacancies = [], companies_id_seq = 3, vacancies_id_seq = 1, status = Ready\<rparr>)"
  by (simp_all add: insert_company_def insert_into_companies_def select_id_where_name_def
      padded_name_simps padded_neq init_store_def is_true_def sql_eq_def and_then_def
      nullable_def not_null_def varchar255_def fetchone_def commit_def has_nul_def)

lemma doubled_eq:
  "doubled =
     \<lparr>companies = [\<lparr>c_id = 1, c_name = replicate 255 (CHR ''a''), c_url = None,
                     c_description = None\<rparr>,
                   \<lparr>c_id = 2, c_name = replicate 255 (CHR ''a''), c_url = None,
                     c_description = None\<rparr>],
      vacancies = [], companies_id_seq = 3, vacancies_id_seq = 1, status = Ready\<rparr>"
  "fst (insert_company padded init_store) = Inr (Some 1)"
  "fst (insert_company padded (snd (insert_company padded init_store))) = Inr (Some 2)"
  by (simp_all add: doubled_def padded_def twice_padded)

text \<open>
  C2, as stated, fails, in each of these ways.
  A url of 256 letters does not fit \<open>VARCHAR(255)\<close>: the first call returns \<open>None\<close>, a
  second call for the same name with a url that fits returns an id. The same happens
  when the description of the first call holds NUL, and when the first call meets an
  aborted transaction. A name that holds NUL gives \<open>None\<close> and no row.
  A name of 255 letters and a space is stored without the space and looked up with it:
  the two calls return the ids 1 and 2 and leave two rows of one name. On that store
  two calls for the name of 255 letters agree on the id 1, and two rows have the name.
\<close>

theorem insert_company_twice_counterexample:
  "fst (insert_company \<lparr>name = Some ''Acme'', url = Some long_name, description = None\<rparr>
          init_store) = Inr None \<and>
   fst (insert_company acme
          (snd (insert_company \<lparr>name = Some ''Acme'', url = Some long_name, description = None\<rparr>
             init_store))) \<noteq> Inr None \<and>
   fst (insert_company \<lparr>name = Some ''Acme'', url = None, description = Some [CHR 0x00]\<rparr>
          init_store) = Inr None \<and>
   fst (insert_company acme
          (snd (insert_company \<lparr>name = Some ''Acme'', url = None,
                  description = Some [CHR 0x00]\<rparr> init_store))) \<noteq> Inr None \<and>
   fst (insert_company acme (init_store\<lparr>status := Aborted\<rparr>)) = Inr None \<and>
   fst (insert_company acme (snd (insert_company acme (init_store\<lparr>status := Aborted\<rparr>))))
     \<noteq> Inr None \<and>
   fst (insert_company \<lparr>name = Some [CHR 0x00], url = None, description = None\<rparr> init_store)
     = Inr None \<and>
   companies (snd (insert_company \<lparr>name = Some [CHR 0x00], url = None, description = None\<rparr>
                init_store)) = [] \<and>
   fst (insert_company padded init_store) = Inr (Some 1) \<and>
   fst (insert_company padded (snd (insert_company padded init_store))) = Inr (Some 2) \<and>
   map c_name (companies doubled)
     = [replicate 255 (CHR ''a''), replicate 255 (CHR ''a'')] \<and>
   fst (insert_company trimmed doubled) = Inr (Some 1) \<and>
   insert_company trimmed (snd (insert_company trimmed doubled)) = (Inr (Some 1), doubled)"
proof -
  have url: "fst (insert_company \<lparr>name = Some ''Acme'', url = Some long_name,
                 description = None\<rparr> init_store) = Inr None"
    "fst (insert_company acme
          (snd (insert_company \<lparr>name = Some ''Acme'', url = Some long_name, description = None\<rparr>
             init_store))) \<noteq> Inr None"
    by (simp_all add: insert_company_def insert_into_companies_def select_id_where_name_def
      long_name_simps init_store_def acme_def sql_defs)
  have nul: "fst (insert_company \<lparr>name = Some ''Acme'', url = None,
                 description = Some [CHR 0x00]\<rparr> init_store) = Inr None"
    "fst (insert_company acme
          (snd (insert_company \<lparr>name = Some ''Acme'', url = None,
                  description = Some [CHR 0x00]\<rparr> init_store))) \<noteq> Inr None"
    "fst (insert_company \<lparr>name = Some [CHR 0x00], url = None, description = None\<rparr> init_store)
     = Inr None"
    "companies (snd (insert_company \<lparr>name = Some [CHR 0x00], url = None, description = None\<rparr>
                init_store)) = []"
    by (simp_all add: insert_company_def insert_into_companies_def select_id_where_name_def
      init_store_def acme_def sql_defs)
  have ab: "fst (insert_company acme (init_store\<lparr>status := Aborted\<rparr>)) = Inr None"
    "fst (insert_company acme (snd (insert_company acme (init_store\<lparr>status := Aborted\<rparr>))))
     \<noteq> Inr None"
    by (simp_all add: insert_company_def insert_into_companies_def select_id_where_name_def
      init_store_def acme_def sql_defs)
  have tr: "insert_company trimmed doubled = (Inr (Some 1), doubled)"
    by (simp add: doubled_eq(1) trimmed_def insert_company_def select_id_where_name_def
        is_true_def sql_eq_def fetchone_def commit_def has_nul_def)
  have names: "map c_name (companies doubled)
     = [replicate 255 (CHR ''a''), replicate 255 (CHR ''a'')]"
    by (simp add: doubled_eq(1))
  show ?thesis
    using url nul ab doubled_eq(2,3) names by (simp add: tr)
qed

text \<open>
  C2, amended. On a usable connection, for a name of at most 255 characters without
  NUL that at most one row of \<open>companies\<close> has: when such a row exists, or the url and
  the description of the first call are free of NUL and the url fits its column, the
  first call returns an id, the second call (with any url and description) returns the
  same id and leaves the store as the first call left it, and afterwards exactly one
  row has the name, the row with that id.
\<close>

theorem insert_company_idempotent:
  assumes ready: "status s = Ready"
    and n1: "name c1 = Some n" and n2: "name c2 = Some n"
    and len: "length n \<le> 255" and nul: "CHR 0x00 \<notin> set n"
    and uniq: "length [r \<leftarrow> companies s. c_name r = n] \<le> 1"
    and fits: "[r \<leftarrow> companies s. c_name r = n] \<noteq> [] \<or>
               \<not> has_nul [url c1, description c1] \<and>
               (\<forall>u. url c1 = Some u \<longrightarrow> varchar255 u \<noteq> Inl StringDataRightTruncation)"
  shows "\<exists>i. fst (insert_company c1 s) = Inr (Some i) \<and>
             insert_company c2 (snd (insert_company c1 s))
               = (Inr (Some i), snd (insert_company c1 s)) \<and>
             map c_id [r \<leftarrow> companies (snd (insert_company c1 s)). c_name r = n] = [i]"
proof (cases "[r \<leftarrow> companies s. c_name r = n]")
  case (Cons r rs)
  with uniq have rs: "rs = []" by simp
  have nn: "\<not> has_nul [name c1]" "\<not> has_nul [name c2]"
    using nul by (simp_all add: has_nul_def n1 n2)
  have sel: "select_id_where_name (Some n) s = [c_id r]"
    by (simp add: select_id_where_name_Some Cons rs)
  have first: "insert_company c1 s = (Inr (Some (c_id r)), s)"
    using ready nn by (simp add: insert_company_def n1 sel fetchone_def commit_Ready)
  have second: "insert_company c2 s = (Inr (Some (c_id r)), s)"
    using ready nn by (simp add: insert_company_def n2 sel fetchone_def commit_Ready)
  show ?thesis
    by (simp add: first second Cons rs)
next
  case Nil
  with fits have u: "\<forall>u. url c1 = Some u \<longrightarrow> varchar255 u \<noteq> Inl StringDataRightTruncation"
    and un: "\<not> has_nul [url c1, description c1]"
    by simp_all
  have nn: "\<not> has_nul [name c1]" "\<not> has_nul [name c2]"
    "\<not> has_nul [name c1, url c1, description c1]"
    using nul un by (simp_all add: has_nul_def n1 n2)
  define i where "i = companies_id_seq s"
  define u' where "u' = (case url c1 of None \<Rightarrow> None
     | Some x \<Rightarrow> (case varchar255 x of Inr y \<Rightarrow> Some y | Inl e \<Rightarrow> None))"
  define s1 where "s1 = s\<lparr>companies := companies s @
        [\<lparr>c_id = i, c_name = n, c_url = u', c_description = description c1\<rparr>],
      companies_id_seq := i + 1\<rparr>"
  have vn: "varchar255 n = Inr n" using len by (simp add: varchar255_def)
  have vu: "nullable varchar255 (url c1) = Inr u'"
    using u by (auto simp: nullable_def u'_def and_then_def varchar255_def split: option.splits)
  have vnn: "nullable varchar255 (name c1) = Inr (Some n)"
    by (simp add: n1 nullable_def vn and_then_def)
  have ins: "insert_into_companies c1 s = (Inr i, s1)"
    by (simp add: insert_into_companies_def vnn vu and_then_def not_null_def i_def s1_def)
  have sel: "select_id_where_name (Some n) s = []"
    by (simp add: select_id_where_name_Some Nil)
  have r1: "status s1 = Ready" using ready by (simp add: s1_def)
  have first: "insert_company c1 s = (Inr (Some i), s1)"
    using ready nn by (simp add: insert_company_def n1 sel fetchone_def ins commit_Ready r1)
  have rows: "[r \<leftarrow> companies s1. c_name r = n] =
      [\<lparr>c_id = i, c_name = n, c_url = u', c_description = description c1\<rparr>]"
    by (simp add: s1_def Nil)
  have sel1: "select_id_where_name (Some n) s1 = [i]"
    by (simp add: select_id_where_name_Some rows)
  have second: "insert_company c2 s1 = (Inr (Some i), s1)"
    using r1 nn by (simp add: insert_company_def n2 sel1 fetchone_def commit_Ready)
  show ?thesis
    by (simp add: first second rows)
qed

text \<open>On the empty store: \<open>Acme\<close> is saved with id 1, and a second call with another
  url and description returns 1 and changes nothing.\<close>

theorem insert_company_idempotent_witness:
  "fst (insert_company acme init_store) = Inr (Some 1) \<and>
   insert_company \<lparr>name = Some ''Acme'', url = Some ''https://acme.example'',
       description = Some ''anvils''\<rparr> (snd (insert_company acme init_store))
     = (Inr (Some 1), snd (insert_company acme init_store)) \<and>
   map c_id [r \<leftarrow> companies (snd (insert_company acme init_store)). c_name r = ''Acme''] = [1]"
proof -
  have h: "status init_store = Ready" "name acme = Some ''Acme''"
    "name \<lparr>name = Some ''Acme'', url = Some ''https://acme.example'',
       description = Some ''anvils''\<rparr> = Some ''Acme''"
    "length ''Acme'' \<le> 255" "CHR 0x00 \<notin> set ''Acme''"
    "length [r \<leftarrow> companies init_store. c_name r = ''Acme''] \<le> 1"
    "[r \<leftarrow> companies init_store. c_name r = ''Acme''] \<noteq> [] \<or>
       \<not> has_nul [url acme, description acme] \<and>
       (\<forall>u. url acme = Some u \<longrightarrow> varchar255 u \<noteq> Inl StringDataRightTruncation)"
    by (simp_all add: init_store_def acme_def has_nul_def)
  have f: "fst (insert_company acme init_store) = Inr (Some 1)"
    by (simp add: insert_company_def insert_into_companies_def select_id_where_name_def
      init_store_def acme_def sql_defs)
  from insert_company_idempotent [OF h] f show ?thesis by auto
qed

subsection \<open>\<open>get_avg_salary\<close>\<close>

lemma div_2_0_Some: "div_2_0 (Some x) = Some (of_int x / 2)"
  by (simp add: div_2_0_def)

lemma avg_totals:
  "list_all sum_fits vs \<Longrightarrow>
   \<exists>totals. collect (map (\<lambda>v. int4pl (v_salary_from v) (v_salary_to v))
                [v \<leftarrow> vs. is_true (sql_and (is_not_null (v_salary_from v))
                                             (is_not_null (v_salary_to v)))]) = Inr totals \<and>
             [y. Some y \<leftarrow> map div_2_0 totals] = midpoints vs"
proof (induction vs)
  case Nil
  then show ?case by simp
next
  case (Cons v vs)
  then obtain totals where t: "collect (map (\<lambda>v. int4pl (v_salary_from v) (v_salary_to v))
                [v \<leftarrow> vs. is_true (sql_and (is_not_null (v_salary_from v))
                                             (is_not_null (v_salary_to v)))]) = Inr totals"
     "[y. Some y \<leftarrow> map div_2_0 totals] = midpoints vs"
    by auto
  from Cons.prems have f: "sum_fits v" by simp
  show ?case
  proof (cases "v_salary_from v")
    case None
    then show ?thesis using t
      by (simp add: is_true_def sql_and_def is_not_null_def)
  next
    case (Some a)
    note a = this
    show ?thesis
    proof (cases "v_salary_to v")
      case None
      then show ?thesis using t a
        by (simp add: is_true_def sql_and_def is_not_null_def)
    next
      case (Some b)
      then show ?thesis using t a f
        by (simp add: is_true_def sql_and_def is_not_null_def int4pl_def int4_def
            and_then_def sum_fits_def div_2_0_Some)
    qed
  qed
qed

lemma get_avg_salary_eq:
  assumes "status s = Ready" and "list_all sum_fits (vacancies s)"
  shows "get_avg_salary result_scale s
           = (Inr (numeric_mean result_scale (midpoints (vacancies s))), s)"
proof -
  from avg_totals [OF assms(2)] obtain totals where
    t: "collect (map (\<lambda>v. int4pl (v_salary_from v) (v_salary_to v))
                [v \<leftarrow> vacancies s. is_true (sql_and (is_not_null (v_salary_from v))
                                             (is_not_null (v_salary_to v)))]) = Inr totals"
     "[y. Some y \<leftarrow> map div_2_0 totals] = midpoints (vacancies s)"
    by blast
  show ?thesis
    using assms(1) t
    by (simp add: get_avg_salary_def sql_avg_def numeric_mean_def mean_def Let_def)
qed

lemma round_numeric_of_int: "round_numeric k (of_int n) = of_int n"
proof -
  have p: "(10::rat) ^ k = of_int (10 ^ k)" by simp
  have f: "\<And>z::int. \<lfloor>(of_int z :: rat) + 1 / 2\<rfloor> = z"
    by (simp add: floor_unique)
  have pos: "round_numeric k (of_int n)
      = (if 0 \<le> n then of_int \<lfloor>(of_int (n * 10 ^ k) :: rat) + 1 / 2\<rfloor> / of_int (10 ^ k)
         else - (of_int \<lfloor>(of_int (- n * 10 ^ k) :: rat) + 1 / 2\<rfloor> / of_int (10 ^ k)))"
    by (simp add: round_numeric_def)
  show ?thesis
    unfolding pos f by simp
qed

lemma round_thirds: "round_numeric 20 (5 / 3) = 166666666666666666667 / 10 ^ 20"
  by (simp add: round_numeric_def floor_unique)

text \<open>With twenty decimal places the average of the midpoints 1, 2 and 2 is
  1.66666666666666666667, not the fraction 5/3.\<close>

lemma get_avg_salary_thirds:
  "fst (get_avg_salary twenty_places (saved\<lparr>vacancies := thirds\<rparr>))
     = Inr (Some (166666666666666666667 / 10 ^ 20)) \<and>
   mean (midpoints thirds) = Some (5 / 3)"
proof -
  have 1: "status (saved\<lparr>vacancies := thirds\<rparr>) = Ready"
    "list_all sum_fits (vacancies (saved\<lparr>vacancies := thirds\<rparr>))"
    by (simp_all add: saved_eq thirds_def sum_fits_def)
  have m: "mean (midpoints thirds) = Some (5 / 3)"
    by (simp add: thirds_def mean_def)
  then have "numeric_mean twenty_places (midpoints thirds) = Some (round_numeric 20 (5 / 3))"
    by (simp add: numeric_mean_def twenty_places_def)
  then have "numeric_mean twenty_places (midpoints thirds)
      = Some (166666666666666666667 / 10 ^ 20)"
    by (simp only: round_thirds)
  with get_avg_salary_eq [OF 1, of twenty_places] m show ?thesis
    by simp
qed

text \<open>
  C3. \<open>get_avg_salary\<close> adds the two bounds as 32-bit integers. The listing with the
  bounds 2000000000 and 2000000000 is stored (each bound fits \<open>INT\<close>); their sum does
  not fit, and on the store with that listing \<open>get_avg_salary\<close> raises instead of
  returning the mean, which its docstring promises (the average salary, or \<open>None\<close> when
  there is no data).
\<close>

theorem get_avg_salary_overflow:
  "fst (insert_vacancy director (snd (insert_company acme init_store))) = Inr None \<and>
   fst (get_avg_salary sixteen_places
          (snd (insert_vacancy director (snd (insert_company acme init_store)))))
     = Inl NumericValueOutOfRange"
  by (simp add: get_avg_salary_def insert_company_def insert_vacancy_def
      insert_into_companies_def insert_into_vacancies_def select_id_where_name_def
      select_id_where_url_def init_store_def acme_def director_def sql_defs
      sql_and_def is_not_null_def int4pl_def)

subsection \<open>\<open>get_vacancies_with_higher_salary\<close>\<close>

lemma fetchall_Nil: "fetchall [] = {[]}"
  by (auto simp: fetchall_def)

lemma fetchall_single: "fetchall [x] = {[x]}"
  by (auto simp: fetchall_def)

lemma collect_map_Inr:
  "(\<And>x. x \<in> set xs \<Longrightarrow> f x = Inr (g x)) \<Longrightarrow> collect (map f xs) = Inr (map g xs)"
  by (induction xs) simp_all

lemma where_midpoint_gt_above:
  "sum_fits v \<Longrightarrow> where_midpoint_gt a v = Inr (above a v)"
  by (auto simp: where_midpoint_gt_def above_def sum_fits_def int4pl_def int4_def and_then_def
      div_2_0_Some sql_gt_def is_true_def div_2_0_def split: option.splits)

lemma join_vacancy:
  "(v, c) \<in> set (vacancies_join_companies s) \<Longrightarrow> v \<in> set (vacancies s)"
  by (auto simp: vacancies_join_companies_def split: if_splits)

lemma flagged_rows:
  "concat (map ((\<lambda>((v, c), b). if b then [f v c] else []) \<circ> (\<lambda>(v, c). ((v, c), P v))) xs)
     = concat (map (\<lambda>(v, c). if P v then [f v c] else []) xs)"
  by (induction xs) auto

text \<open>The rounding of the average does not move a row across the comparison: the
  midpoints and the sum are halves of integers, so a midpoint that differs from the
  mean of \<open>n\<close> values differs by at least \<open>1 / (2 n)\<close>, and a mean that is a midpoint is
  not changed by the rounding.\<close>

lemma round_numeric_exact:
  assumes "x * 10 ^ r = of_int z"
  shows "round_numeric r x = x"
proof -
  have f: "\<And>z::int. \<lfloor>(of_int z :: rat) + 1 / 2\<rfloor> = z"
    by (simp add: floor_unique)
  have p: "(10::rat) ^ r \<noteq> 0" by simp
  from assms have x: "x = of_int z / 10 ^ r"
    using p by (simp add: field_simps)
  have n: "- x * 10 ^ r = of_int (- z)"
    using assms by simp
  show ?thesis
  proof (cases "0 \<le> x")
    case True
    then have "round_numeric r x = of_int \<lfloor>(of_int z :: rat) + 1 / 2\<rfloor> / 10 ^ r"
      by (simp add: round_numeric_def assms)
    also have "\<dots> = of_int z / 10 ^ r" by (simp only: f)
    finally show ?thesis by (simp only: x)
  next
    case False
    then have "round_numeric r x = - (of_int \<lfloor>(of_int (- z) :: rat) + 1 / 2\<rfloor> / 10 ^ r)"
      by (simp only: round_numeric_def n if_False)
    also have "\<dots> = - (of_int (- z) / 10 ^ r)" by (simp only: f)
    also have "\<dots> = of_int z / 10 ^ r" by simp
    finally show ?thesis by (simp only: x)
  qed
qed

lemma floor_half_error:
  fixes y :: rat
  shows "\<bar>of_int \<lfloor>y + 1 / 2\<rfloor> - y\<bar> \<le> 1 / 2"
proof -
  have "of_int \<lfloor>y + 1 / 2\<rfloor> \<le> y + 1 / 2" by (rule of_int_floor_le)
  moreover have "y + 1 / 2 < of_int \<lfloor>y + 1 / 2\<rfloor> + 1" by linarith
  ultimately show ?thesis by linarith
qed

lemma round_numeric_error: "\<bar>round_numeric r x - x\<bar> \<le> 1 / (2 * 10 ^ r)"
proof -
  have p: "(0::rat) < 10 ^ r" by simp
  have e: "\<And>y::rat. \<bar>of_int \<lfloor>y * 10 ^ r + 1 / 2\<rfloor> / 10 ^ r - y\<bar> \<le> 1 / (2 * 10 ^ r)"
  proof -
    fix y :: rat
    have "of_int \<lfloor>y * 10 ^ r + 1 / 2\<rfloor> / 10 ^ r - y
        = (of_int \<lfloor>y * 10 ^ r + 1 / 2\<rfloor> - y * 10 ^ r) / 10 ^ r"
      using p by (simp add: field_simps)
    then have "\<bar>of_int \<lfloor>y * 10 ^ r + 1 / 2\<rfloor> / 10 ^ r - y\<bar>
        = \<bar>of_int \<lfloor>y * 10 ^ r + 1 / 2\<rfloor> - y * 10 ^ r\<bar> / 10 ^ r"
      using p by (simp add: abs_divide)
    also have "\<dots> \<le> (1 / 2) / 10 ^ r"
      by (rule divide_right_mono [OF floor_half_error]) simp
    finally show "\<bar>of_int \<lfloor>y * 10 ^ r + 1 / 2\<rfloor> / 10 ^ r - y\<bar> \<le> 1 / (2 * 10 ^ r)"
      by simp
  qed
  show ?thesis
  proof (cases "0 \<le> x")
    case True
    then show ?thesis using e [of x] by (simp add: round_numeric_def)
  next
    case False
    have "\<bar>- (of_int \<lfloor>- x * 10 ^ r + 1 / 2\<rfloor> / 10 ^ r) - x\<bar>
        = \<bar>of_int \<lfloor>- x * 10 ^ r + 1 / 2\<rfloor> / 10 ^ r - (- x)\<bar>"
      by (simp add: abs_minus_commute)
    with False show ?thesis using e [of "- x"] by (simp add: round_numeric_def)
  qed
qed

lemma round_numeric_above:
  fixes k K :: int and n r :: nat
  assumes n: "0 < n" "n < 10 ^ r" and r: "0 < r"
  shows "round_numeric r (of_int K / 2 / of_nat n) < of_int k / 2
           \<longleftrightarrow> (of_int K / 2 / of_nat n :: rat) < of_int k / 2"
proof -
  define a :: rat where "a = of_int K / 2 / of_nat n"
  define m :: rat where "m = of_int k / 2"
  define N :: rat where "N = of_nat n"
  define P :: rat where "P = 10 ^ r"
  have "(of_nat n :: rat) < of_nat (10 ^ r)"
    using n(2) by (simp only: of_nat_less_iff)
  then have N: "0 < N" "N < P"
    using n(1) by (simp_all add: N_def P_def)
  have err: "\<bar>round_numeric r a - a\<bar> \<le> 1 / (2 * P)"
    unfolding P_def by (rule round_numeric_error)
  have small: "1 / (2 * P) < 1 / (2 * N)"
    using N by (simp add: field_simps)
  have diff: "m - a = of_int (k * int n - K) / (2 * N)"
    using N by (simp add: a_def m_def N_def field_simps)
  consider "a = m" | "a < m" | "m < a" by linarith
  then have "round_numeric r a < m \<longleftrightarrow> a < m"
  proof cases
    case 1
    obtain r' where r': "r = Suc r'" using r by (cases r) auto
    have "m * 10 ^ r = of_int (k * 5 * 10 ^ r')"
      by (simp add: m_def r')
    then have "round_numeric r m = m" by (rule round_numeric_exact)
    with 1 show ?thesis by simp
  next
    case 2
    then have "0 < m - a" by simp
    then have "(0::rat) < of_int (k * int n - K)"
      using N by (simp add: diff zero_less_divide_iff)
    then have "0 < k * int n - K" by (simp only: of_int_0_less_iff)
    then have "1 \<le> k * int n - K" by linarith
    then have "(1::rat) \<le> of_int (k * int n - K)"
      by (simp only: of_int_1_le_iff)
    then have "(1::rat) / (2 * N) \<le> of_int (k * int n - K) / (2 * N)"
      using N by (intro divide_right_mono) simp_all
    then have "1 / (2 * N) \<le> m - a"
      by (simp only: diff)
    with small err have "round_numeric r a - a < m - a"
      by (simp add: abs_le_iff)
    with 2 show ?thesis by simp
  next
    case 3
    then have "m - a < 0" by simp
    then have "of_int (k * int n - K) < (0::rat)"
      using N by (simp add: diff divide_less_0_iff)
    then have "k * int n - K < 0" by (simp only: of_int_less_0_iff)
    then have "k * int n - K \<le> - 1" by linarith
    then have "of_int (k * int n - K) \<le> (- 1 :: rat)"
      by (metis of_int_le_iff of_int_minus of_int_1)
    then have "of_int (k * int n - K) / (2 * N) \<le> (- 1 :: rat) / (2 * N)"
      using N by (intro divide_right_mono) simp_all
    then have "m - a \<le> - 1 / (2 * N)"
      by (simp only: diff)
    with small err have "m - a < round_numeric r a - a"
      by (simp add: abs_le_iff)
    with 3 show ?thesis by simp
  qed
  then show ?thesis by (simp only: a_def m_def)
qed

lemma midpoints_sum: "\<exists>K::int. sum_list (midpoints vs) = of_int K / 2"
proof (induction vs)
  case Nil
  have "sum_list (midpoints []) = of_int 0 / 2" by simp
  then show ?case by blast
next
  case (Cons v vs)
  then obtain K :: int where K: "sum_list (midpoints vs) = of_int K / 2" by blast
  show ?case
  proof (cases "v_salary_from v")
    case None
    with K show ?thesis by auto
  next
    case (Some a)
    show ?thesis
    proof (cases "v_salary_to v")
      case None
      with Some K show ?thesis by auto
    next
      case (Some b)
      have "sum_list (midpoints (v # vs)) = of_int (a + b + K) / 2"
        using \<open>v_salary_from v = Some a\<close> Some K by (simp add: add_divide_distrib)
      then show ?thesis by blast
    qed
  qed
qed

lemma above_numeric_mean:
  assumes "0 < result_scale (midpoints vs)"
    and "length (midpoints vs) < 10 ^ result_scale (midpoints vs)"
    and "mean (midpoints vs) = Some a"
  shows "numeric_mean result_scale (midpoints vs)
           = Some (round_numeric (result_scale (midpoints vs)) a) \<and>
         above (round_numeric (result_scale (midpoints vs)) a) v = above a v"
proof -
  from assms(3) have ne: "midpoints vs \<noteq> []" and a: "a = sum_list (midpoints vs)
      / of_nat (length (midpoints vs))"
    by (auto simp: mean_def split: if_splits)
  obtain K :: int where K: "sum_list (midpoints vs) = of_int K / 2"
    using midpoints_sum by blast
  from ne have n: "0 < length (midpoints vs)" by simp
  have 1: "numeric_mean result_scale (midpoints vs)
           = Some (round_numeric (result_scale (midpoints vs)) a)"
    by (simp add: numeric_mean_def assms(3))
  have 2: "above (round_numeric (result_scale (midpoints vs)) a) v = above a v"
  proof (cases "v_salary_from v")
    case None
    then show ?thesis by (simp add: above_def)
  next
    case (Some x)
    show ?thesis
    proof (cases "v_salary_to v")
      case None
      with Some show ?thesis by (simp add: above_def)
    next
      case (Some y)
      have "(of_int x + of_int y :: rat) / 2 = of_int (x + y) / 2" by simp
      with round_numeric_above [OF n assms(2) assms(1), of K "x + y"]
      show ?thesis
        using \<open>v_salary_from v = Some x\<close> Some
        by (simp only: above_def a K prod.case option.case)
    qed
  qed
  from 1 2 show ?thesis ..
qed

text \<open>
  C4, amended. On a usable connection on which \<open>get_avg_salary\<close> does not raise (the
  sums of the bounds fit), \<open>get_vacancies_with_higher_salary\<close> returns the empty list
  when the average is absent. Otherwise it returns, in some order, the rows of the join
  of \<open>vacancies\<close> with \<open>companies\<close> whose vacancy has both bounds and a midpoint strictly
  above the average that \<open>get_avg_salary\<close> returns: a vacancy with a null bound is left
  out without an error, and so is a vacancy without a company. The store stays as it
  is. When the average has at least one decimal place and ten to the number of its
  places exceeds the number of midpoints, these are the rows whose midpoint is strictly
  above the arithmetic mean itself.
\<close>

theorem get_vacancies_with_higher_salary_above:
  assumes "status s = Ready" and "list_all sum_fits (vacancies s)"
  shows "get_avg_salary result_scale s
           = (Inr (numeric_mean result_scale (midpoints (vacancies s))), s) \<and>
         get_vacancies_with_higher_salary result_scale s =
     (Inr (case numeric_mean result_scale (midpoints (vacancies s)) of
             None \<Rightarrow> {[]}
           | Some avg_salary \<Rightarrow>
               fetchall [(c_name c, v_title v, v_salary_from v, v_salary_to v, v_url v).
                         (v, c) \<leftarrow> vacancies_join_companies s, above avg_salary v]), s) \<and>
         (0 < result_scale (midpoints (vacancies s)) \<and>
          length (midpoints (vacancies s)) < 10 ^ result_scale (midpoints (vacancies s)) \<longrightarrow>
          get_vacancies_with_higher_salary result_scale s =
     (Inr (case mean (midpoints (vacancies s)) of
             None \<Rightarrow> {[]}
           | Some avg_salary \<Rightarrow>
               fetchall [(c_name c, v_title v, v_salary_from v, v_salary_to v, v_url v).
                         (v, c) \<leftarrow> vacancies_join_companies s, above avg_salary v]), s))"
proof -
  have 1: "get_avg_salary result_scale s
           = (Inr (numeric_mean result_scale (midpoints (vacancies s))), s)"
    by (rule get_avg_salary_eq [OF assms])
  have 2: "get_vacancies_with_higher_salary result_scale s =
     (Inr (case numeric_mean result_scale (midpoints (vacancies s)) of
             None \<Rightarrow> {[]}
           | Some avg_salary \<Rightarrow>
               fetchall [(c_name c, v_title v, v_salary_from v, v_salary_to v, v_url v).
                         (v, c) \<leftarrow> vacancies_join_companies s, above avg_salary v]), s)"
  proof (cases "numeric_mean result_scale (midpoints (vacancies s))")
    case None
    then show ?thesis
      by (simp add: get_vacancies_with_higher_salary_def 1)
  next
    case (Some a)
    have fits: "\<And>x. x \<in> set (vacancies_join_companies s) \<Longrightarrow>
        (\<lambda>(v, c). and_then (where_midpoint_gt a v) (\<lambda>b. Inr ((v, c), b))) x
          = Inr ((\<lambda>(v, c). ((v, c), above a v)) x)"
    proof -
      fix x assume x: "x \<in> set (vacancies_join_companies s)"
      obtain v c where vc: "x = (v, c)" by (cases x)
      with x have "v \<in> set (vacancies s)" by (simp add: join_vacancy)
      with assms(2) have "sum_fits v" by (simp add: list_all_iff)
      then show "(\<lambda>(v, c). and_then (where_midpoint_gt a v) (\<lambda>b. Inr ((v, c), b))) x
          = Inr ((\<lambda>(v, c). ((v, c), above a v)) x)"
        by (simp add: vc where_midpoint_gt_above and_then_def)
    qed
    show ?thesis
      using assms(1)
      by (simp add: get_vacancies_with_higher_salary_def 1 Some
          collect_map_Inr [OF fits] flagged_rows)
  qed
  have 3: "get_vacancies_with_higher_salary result_scale s =
     (Inr (case mean (midpoints (vacancies s)) of
             None \<Rightarrow> {[]}
           | Some avg_salary \<Rightarrow>
               fetchall [(c_name c, v_title v, v_salary_from v, v_salary_to v, v_url v).
                         (v, c) \<leftarrow> vacancies_join_companies s, above avg_salary v]), s)"
    if places: "0 < result_scale (midpoints (vacancies s)) \<and>
          length (midpoints (vacancies s)) < 10 ^ result_scale (midpoints (vacancies s))"
  proof (cases "mean (midpoints (vacancies s))")
    case None
    then show ?thesis by (simp add: 2 numeric_mean_def)
  next
    case (Some a)
    from places have p: "0 < result_scale (midpoints (vacancies s))"
      "length (midpoints (vacancies s)) < 10 ^ result_scale (midpoints (vacancies s))"
      by simp_all
    have n: "numeric_mean result_scale (midpoints (vacancies s))
           = Some (round_numeric (result_scale (midpoints (vacancies s))) a)"
      by (simp add: numeric_mean_def Some)
    have a: "\<And>v. above (round_numeric (result_scale (midpoints (vacancies s))) a) v
        = above a v"
      using above_numeric_mean [where result_scale = result_scale and vs = "vacancies s"
          and a = a] p Some
      by blast
    show ?thesis
      by (simp add: 2 n Some a)
  qed
  from 1 2 3 show ?thesis by blast
qed

lemma unowned_eq:
  "unowned = \<lparr>companies =
       [\<lparr>c_id = 1, c_name = ''Acme'', c_url = None, c_description = None\<rparr>],
     vacancies =
       [\<lparr>v_id = 1, v_company_id = Some 1, v_title = ''Engineer'', v_salary_from = Some 1000,
         v_salary_to = Some 3000, v_url = Some ''https://api.hh.ru/vacancies/1'',
         v_description = Some ''''\<rparr>,
        \<lparr>v_id = 2, v_company_id = None, v_title = ''Manager'', v_salary_from = Some 3000,
         v_salary_to = Some 4000, v_url = Some ''https://api.hh.ru/vacancies/3'',
         v_description = Some ''''\<rparr>],
     companies_id_seq = 2, vacancies_id_seq = 3, status = Ready\<rparr>"
  by (simp add: unowned_def saved_eq insert_vacancy_def insert_into_vacancies_def
      select_id_where_url_def manager_def sql_defs)

text \<open>
  C4, as stated, fails: the query joins \<open>vacancies\<close> with \<open>companies\<close>, so a vacancy
  whose \<open>company_id\<close> is null is never returned. With the listing of Acme (midpoint 2000)
  and the listing without a company (midpoint 3500) the average is 2750, the second
  midpoint is above it, and the result is empty.
\<close>

theorem get_vacancies_with_higher_salary_orphan_counterexample:
  "unowned = snd (insert_vacancy manager saved) \<and>
   fst (get_avg_salary sixteen_places unowned) = Inr (Some 2750) \<and>
   [v_title v. v \<leftarrow> vacancies unowned, above 2750 v] = [''Manager''] \<and>
   fst (get_vacancies_with_higher_salary sixteen_places unowned) = Inr {[]}"
proof -
  have 1: "status unowned = Ready" "list_all sum_fits (vacancies unowned)"
    by (simp_all add: unowned_eq sum_fits_def)
  have "numeric_mean sixteen_places (midpoints (vacancies unowned))
      = Some (round_numeric 16 (of_int 2750))"
    by (simp add: unowned_eq numeric_mean_def mean_def sixteen_places_def)
  then have m: "numeric_mean sixteen_places (midpoints (vacancies unowned)) = Some 2750"
    by (simp only: round_numeric_of_int) simp
  have j: "vacancies_join_companies unowned =
     [(\<lparr>v_id = 1, v_company_id = Some 1, v_title = ''Engineer'', v_salary_from = Some 1000,
         v_salary_to = Some 3000, v_url = Some ''https://api.hh.ru/vacancies/1'',
         v_description = Some ''''\<rparr>,
       \<lparr>c_id = 1, c_name = ''Acme'', c_url = None, c_description = None\<rparr>)]"
    by (simp add: unowned_eq vacancies_join_companies_def sql_defs)
  have a: "[v_title v. v \<leftarrow> vacancies unowned, above 2750 v] = [''Manager'']"
    by (simp add: unowned_eq above_def)
  have g: "get_avg_salary sixteen_places unowned = (Inr (Some 2750), unowned)"
    using get_avg_salary_eq [OF 1] m by simp
  have h: "fst (get_vacancies_with_higher_salary sixteen_places unowned) = Inr {[]}"
    using 1(1) by (simp add: get_vacancies_with_higher_salary_def g j fetchall_Nil
        where_midpoint_gt_def int4pl_def div_2_0_Some sql_gt_def sql_defs)
  show ?thesis using g a h by (simp add: unowned_def)
qed

text \<open>Midpoints 1000, 2000 and 3000 and a row with one bound: the average is 2000 and
  the result is the row with the midpoint 3000. On the empty store the result is the
  empty list.\<close>

theorem get_vacancies_with_higher_salary_above_witness:
  "fst (get_avg_salary sixteen_places (saved\<lparr>vacancies := graded\<rparr>)) = Inr (Some 2000) \<and>
   mean (midpoints graded) = Some 2000 \<and>
   fst (get_vacancies_with_higher_salary sixteen_places (saved\<lparr>vacancies := graded\<rparr>))
     = Inr {[(''Acme'', ''Senior'', Some 2500, Some 3500, None)]} \<and>
   fst (get_vacancies_with_higher_salary sixteen_places init_store) = Inr {[]}"
proof -
  have 1: "status (saved\<lparr>vacancies := graded\<rparr>) = Ready"
    "list_all sum_fits (vacancies (saved\<lparr>vacancies := graded\<rparr>))"
    by (simp_all add: saved_eq graded_def sum_fits_def)
  have 2: "status init_store = Ready" "list_all sum_fits (vacancies init_store)"
    by (simp_all add: init_store_def)
  have 3: "0 < sixteen_places (midpoints (vacancies (saved\<lparr>vacancies := graded\<rparr>))) \<and>
      length (midpoints (vacancies (saved\<lparr>vacancies := graded\<rparr>)))
        < 10 ^ sixteen_places (midpoints (vacancies (saved\<lparr>vacancies := graded\<rparr>)))"
    by (simp add: graded_def sixteen_places_def)
  have 4: "0 < sixteen_places (midpoints (vacancies init_store)) \<and>
      length (midpoints (vacancies init_store))
        < 10 ^ sixteen_places (midpoints (vacancies init_store))"
    by (simp add: init_store_def sixteen_places_def)
  have e: "mean (midpoints graded) = Some 2000"
    by (simp add: graded_def mean_def)
  have "numeric_mean sixteen_places (midpoints (vacancies (saved\<lparr>vacancies := graded\<rparr>)))
      = Some (round_numeric 16 (of_int 2000))"
    by (simp add: graded_def numeric_mean_def mean_def sixteen_places_def)
  then have m: "numeric_mean sixteen_places
      (midpoints (vacancies (saved\<lparr>vacancies := graded\<rparr>))) = Some 2000"
    by (simp only: round_numeric_of_int) simp
  have m0: "mean (midpoints (vacancies init_store)) = None"
    by (simp add: init_store_def mean_def)
  have j: "[(c_name c, v_title v, v_salary_from v, v_salary_to v, v_url v).
            (v, c) \<leftarrow> vacancies_join_companies (saved\<lparr>vacancies := graded\<rparr>), above 2000 v]
    = [(''Acme'', ''Senior'', Some 2500, Some 3500, None)]"
    by (simp add: saved_eq graded_def vacancies_join_companies_def above_def sql_defs)
  note t1 = get_vacancies_with_higher_salary_above [OF 1, of sixteen_places]
  note t2 = get_vacancies_with_higher_salary_above [OF 2, of sixteen_places]
  have a: "fst (get_avg_salary sixteen_places (saved\<lparr>vacancies := graded\<rparr>)) = Inr (Some 2000)"
    using t1 m by simp
  from t1 3 have "get_vacancies_with_higher_salary sixteen_places (saved\<lparr>vacancies := graded\<rparr>) =
     (Inr (case mean (midpoints (vacancies (saved\<lparr>vacancies := graded\<rparr>))) of
             None \<Rightarrow> {[]}
           | Some avg_salary \<Rightarrow>
               fetchall [(c_name c, v_title v, v_salary_from v, v_salary_to v, v_url v).
                         (v, c) \<leftarrow> vacancies_join_companies (saved\<lparr>vacancies := graded\<rparr>),
                         above avg_salary v]), saved\<lparr>vacancies := graded\<rparr>)"
    by blast
  then have b: "fst (get_vacancies_with_higher_salary sixteen_places
        (saved\<lparr>vacancies := graded\<rparr>))
     = Inr {[(''Acme'', ''Senior'', Some 2500, Some 3500, None)]}"
    using e j by (simp add: fetchall_single)
  from t2 4 have "get_vacancies_with_higher_salary sixteen_places init_store =
     (Inr (case mean (midpoints (vacancies init_store)) of
             None \<Rightarrow> {[]}
           | Some avg_salary \<Rightarrow>
               fetchall [(c_name c, v_title v, v_salary_from v, v_salary_to v, v_url v).
                         (v, c) \<leftarrow> vacancies_join_companies init_store,
                         above avg_salary v]), init_store)"
    by blast
  then have c: "fst (get_vacancies_with_higher_salary sixteen_places init_store) = Inr {[]}"
    by (simp add: m0)
  show ?thesis using a e b c by simp
qed

subsection \<open>The foreign key of \<open>vacancies\<close>\<close>

lemma referential_integrity_iff:
  "referential_integrity s \<longleftrightarrow>
     (\<forall>v \<in> set (vacancies s). \<forall>i. v_company_id v = Some i \<longrightarrow> i \<in> c_id ` set (companies s))"
  by (auto simp: referential_integrity_def references_company_def list_all_iff
      split: option.splits)

lemma insert_company_integrity:
  assumes "referential_integrity s"
  shows "referential_integrity (snd (insert_company c s))"
proof -
  have "vacancies (snd (insert_company c s)) = vacancies s \<and>
        set (companies s) \<subseteq> set (companies (snd (insert_company c s)))"
    using insert_into_companies_tables [of c s]
    by (auto simp: insert_company_def commit_def split: option.splits sum.splits prod.splits)
  with assms show ?thesis
    by (force simp: referential_integrity_iff)
qed

lemma insert_into_vacancies_Inl:
  "fst (insert_into_vacancies v s) = Inl e \<Longrightarrow>
     companies (snd (insert_into_vacancies v s)) = companies s \<and>
     vacancies (snd (insert_into_vacancies v s)) = vacancies s \<and>
     status (snd (insert_into_vacancies v s)) = status s"
  by (auto simp: insert_into_vacancies_def split: sum.splits if_splits)

lemma insert_into_vacancies_Inr:
  "fst (insert_into_vacancies v s) = Inr u \<Longrightarrow>
     companies (snd (insert_into_vacancies v s)) = companies s \<and>
     status (snd (insert_into_vacancies v s)) = status s \<and>
     (\<exists>r. vacancies (snd (insert_into_vacancies v s)) = vacancies s @ [r] \<and>
          references_company (v_company_id r) s)"
  by (auto simp: insert_into_vacancies_def split: sum.splits if_splits)

lemma insert_vacancy_integrity:
  assumes "referential_integrity s"
  shows "referential_integrity (snd (insert_vacancy v s))"
proof (cases "fst (insert_into_vacancies v s)")
  case (Inl e)
  from insert_into_vacancies_Inl [OF Inl] assms
  have "referential_integrity (snd (insert_into_vacancies v s)\<lparr>status := Aborted\<rparr>)"
    by (simp add: referential_integrity_iff)
  with assms Inl show ?thesis
    by (auto simp: insert_vacancy_def split: option.splits prod.splits sum.splits)
next
  case (Inr u)
  from insert_into_vacancies_Inr [OF Inr] obtain r where
    r: "companies (snd (insert_into_vacancies v s)) = companies s"
       "vacancies (snd (insert_into_vacancies v s)) = vacancies s @ [r]"
       "references_company (v_company_id r) s"
    by blast
  with assms have "referential_integrity (snd (insert_into_vacancies v s))"
    by (auto simp: referential_integrity_iff references_company_def split: option.splits)
  then have "referential_integrity (commit (snd (insert_into_vacancies v s)))"
    by (simp add: referential_integrity_iff commit_def)
  with assms Inr show ?thesis
    by (auto simp: insert_vacancy_def split: option.splits prod.splits sum.splits)
qed

lemma delete_vacancy_integrity:
  "referential_integrity s \<Longrightarrow> referential_integrity (snd (delete_vacancy i s))"
  by (auto simp: referential_integrity_iff delete_vacancy_def commit_def)

lemma delete_all_vacancies_integrity:
  "referential_integrity s \<Longrightarrow> referential_integrity (snd (delete_all_vacancies s))"
  by (auto simp: referential_integrity_iff delete_all_vacancies_def commit_def)

lemma delete_company_integrity:
  "referential_integrity s \<Longrightarrow> referential_integrity (snd (delete_company i s))"
  unfolding referential_integrity_iff
  apply (auto simp: delete_company_def commit_def on_delete_cascade_def list_ex_iff
      is_true_def sql_eq_def image_iff)
  apply metis
  done

lemma delete_all_companies_integrity:
  "referential_integrity s \<Longrightarrow> referential_integrity (snd (delete_all_companies s))"
  unfolding referential_integrity_iff
  by (auto simp: delete_all_companies_def commit_def on_delete_cascade_def list_ex_iff
      is_true_def sql_eq_def image_iff split: option.splits)

lemma get_avg_salary_tables:
  "companies (snd (get_avg_salary result_scale s)) = companies s \<and>
   vacancies (snd (get_avg_salary result_scale s)) = vacancies s"
  by (simp add: get_avg_salary_def split: sum.splits)

lemma get_vacancies_with_higher_salary_tables:
  "companies (snd (get_vacancies_with_higher_salary result_scale s)) = companies s \<and>
   vacancies (snd (get_vacancies_with_higher_salary result_scale s)) = vacancies s"
  using get_avg_salary_tables [of result_scale s]
  by (auto simp: get_vacancies_with_higher_salary_def split: prod.splits sum.splits option.splits)

lemma perform_integrity:
  "referential_integrity s \<Longrightarrow> referential_integrity (perform result_scale opn s)"
proof (cases opn)
  case (Insert_company c)
  then show "referential_integrity s \<Longrightarrow> ?thesis"
    by (simp add: insert_company_integrity)
next
  case (Insert_vacancy v)
  then show "referential_integrity s \<Longrightarrow> ?thesis"
    by (simp add: insert_vacancy_integrity)
next
  case (Delete_vacancy i)
  then show "referential_integrity s \<Longrightarrow> ?thesis"
    by (simp add: delete_vacancy_integrity)
next
  case Delete_all_vacancies
  then show "referential_integrity s \<Longrightarrow> ?thesis"
    by (simp add: delete_all_vacancies_integrity)
next
  case (Delete_company i)
  then show "referential_integrity s \<Longrightarrow> ?thesis"
    by (simp add: delete_company_integrity)
next
  case Delete_all_companies
  then show "referential_integrity s \<Longrightarrow> ?thesis"
    by (simp add: delete_all_companies_integrity)
next
  case Get_avg_salary
  then show "referential_integrity s \<Longrightarrow> ?thesis"
    using get_avg_salary_tables [of result_scale s] by (simp add: referential_integrity_iff)
next
  case Get_vacancies_with_higher_salary
  then show "referential_integrity s \<Longrightarrow> ?thesis"
    using get_vacancies_with_higher_salary_tables [of result_scale s]
    by (simp add: referential_integrity_iff)
next
  case Close
  then show "referential_integrity s \<Longrightarrow> ?thesis"
    by (simp add: referential_integrity_iff close_def)
qed

lemma insert_into_vacancies_missing_company:
  assumes "company_id v = Some i" and "i \<notin> c_id ` set (companies s)"
  shows "\<exists>e. fst (insert_into_vacancies v s) = Inl e"
  using assms
  by (auto simp: insert_into_vacancies_def and_then_def nullable_def int4_def
      references_company_def split: sum.splits if_splits option.splits)

lemma insert_into_vacancies_foreign_key:
  assumes "coercible v" and "title v \<noteq> None"
    and "company_id v = Some i" and "i \<notin> c_id ` set (companies s)"
  shows "insert_into_vacancies v s
    = (Inl ForeignKeyViolation, s\<lparr>vacancies_id_seq := vacancies_id_seq s + 1\<rparr>)"
  using assms
  by (auto simp: insert_into_vacancies_def coercible_def and_then_def nullable_def int4_def
      not_null_def references_company_def split: sum.splits if_splits option.splits)

text \<open>
  C5, as stated, fails: \<open>company_id\<close> has no \<open>NOT NULL\<close>, and a foreign key accepts a
  null. Saving a listing whose \<open>company_id\<close> is absent succeeds, on a store without any
  company, and leaves a row of \<open>vacancies\<close> with a null \<open>company_id\<close>.
\<close>

theorem insert_vacancy_null_company_counterexample:
  "company_id manager = None \<and>
   fst (insert_vacancy manager init_store) = Inr None \<and>
   companies (snd (insert_vacancy manager init_store)) = [] \<and>
   map v_company_id (vacancies (snd (insert_vacancy manager init_store))) = [None]"
  by (simp add: insert_vacancy_def insert_into_vacancies_def select_id_where_url_def
      manager_def init_store_def sql_defs)

text \<open>
  C5, amended. In every row of \<open>vacancies\<close> the \<open>company_id\<close> is null or the id of a
  row of \<open>companies\<close>: this holds on the empty store and every call keeps it.
  \<open>insert_vacancy\<close> with a \<open>company_id\<close> that is present and is no id of
  \<open>companies\<close> never completes as an insert and adds no row. When the connection is
  usable, the lookup by url finds nothing and no string holds a NUL character, it
  raises, leaves both tables as they are and leaves the transaction aborted. When
  moreover the values fit their columns and the title is present, the error is the
  violation of the foreign key, and the refused \<open>INSERT\<close> has taken a value of the
  sequence of \<open>vacancies.id\<close>, which no rollback returns.
\<close>

theorem vacancy_references_company_or_null:
  "referential_integrity init_store \<and>
   (referential_integrity s \<longrightarrow> referential_integrity (perform result_scale opn s)) \<and>
   (company_id v = Some i \<and> i \<notin> c_id ` set (companies s) \<longrightarrow>
      fst (insert_vacancy v s) \<noteq> Inr None \<and>
      vacancies (snd (insert_vacancy v s)) = vacancies s) \<and>
   (status s = Ready \<and> select_id_where_url (vacancy_url v) s = [] \<and>
    \<not> has_nul [title v, vacancy_url v, vacancy_description v] \<and>
    company_id v = Some i \<and> i \<notin> c_id ` set (companies s) \<longrightarrow>
      (\<exists>e. fst (insert_vacancy v s) = Inl e) \<and>
      companies (snd (insert_vacancy v s)) = companies s \<and>
      vacancies (snd (insert_vacancy v s)) = vacancies s \<and>
      status (snd (insert_vacancy v s)) = Aborted) \<and>
   (status s = Ready \<and> select_id_where_url (vacancy_url v) s = [] \<and>
    \<not> has_nul [title v, vacancy_url v, vacancy_description v] \<and>
    coercible v \<and> title v \<noteq> None \<and>
    company_id v = Some i \<and> i \<notin> c_id ` set (companies s) \<longrightarrow>
      insert_vacancy v s
        = (Inl ForeignKeyViolation,
           s\<lparr>vacancies_id_seq := vacancies_id_seq s + 1, status := Aborted\<rparr>))"
proof (intro conjI impI)
  show "referential_integrity init_store"
    by (simp add: referential_integrity_def init_store_def)
next
  assume "referential_integrity s"
  then show "referential_integrity (perform result_scale opn s)"
    by (rule perform_integrity)
next
  assume a: "company_id v = Some i \<and> i \<notin> c_id ` set (companies s)"
  then obtain e where e: "fst (insert_into_vacancies v s) = Inl e"
    using insert_into_vacancies_missing_company by blast
  show "fst (insert_vacancy v s) \<noteq> Inr None"
    using e by (auto simp: insert_vacancy_def split: option.splits prod.splits sum.splits)
  show "vacancies (snd (insert_vacancy v s)) = vacancies s"
    using e insert_into_vacancies_Inl [OF e]
    by (auto simp: insert_vacancy_def split: option.splits prod.splits sum.splits)
next
  assume a: "status s = Ready \<and> select_id_where_url (vacancy_url v) s = [] \<and>
    \<not> has_nul [title v, vacancy_url v, vacancy_description v] \<and>
    company_id v = Some i \<and> i \<notin> c_id ` set (companies s)"
  then obtain e where e: "fst (insert_into_vacancies v s) = Inl e"
    using insert_into_vacancies_missing_company by blast
  from a have n: "\<not> has_nul [vacancy_url v]"
    by (simp add: has_nul_def)
  have eq: "insert_vacancy v s = (Inl e, snd (insert_into_vacancies v s)\<lparr>status := Aborted\<rparr>)"
    using a e n by (cases "insert_into_vacancies v s") (simp add: insert_vacancy_def fetchone_def)
  show "\<exists>e. fst (insert_vacancy v s) = Inl e"
    by (simp add: eq)
  show "companies (snd (insert_vacancy v s)) = companies s"
    using insert_into_vacancies_Inl [OF e] by (simp add: eq)
  show "vacancies (snd (insert_vacancy v s)) = vacancies s"
    using insert_into_vacancies_Inl [OF e] by (simp add: eq)
  show "status (snd (insert_vacancy v s)) = Aborted"
    by (simp add: eq)
next
  assume a: "status s = Ready \<and> select_id_where_url (vacancy_url v) s = [] \<and>
    \<not> has_nul [title v, vacancy_url v, vacancy_description v] \<and>
    coercible v \<and> title v \<noteq> None \<and>
    company_id v = Some i \<and> i \<notin> c_id ` set (companies s)"
  then have f: "insert_into_vacancies v s
    = (Inl ForeignKeyViolation, s\<lparr>vacancies_id_seq := vacancies_id_seq s + 1\<rparr>)"
    by (simp add: insert_into_vacancies_foreign_key)
  from a have n: "\<not> has_nul [vacancy_url v]"
    by (simp add: has_nul_def)
  show "insert_vacancy v s
        = (Inl ForeignKeyViolation,
           s\<lparr>vacancies_id_seq := vacancies_id_seq s + 1, status := Aborted\<rparr>)"
    using a n by (simp add: insert_vacancy_def fetchone_def f)
qed

text \<open>Saving a listing without a company on the empty store, and deleting the
  company of the saved listing (which takes the listing with it), keep the foreign
  key. A listing for the company 7, which does not exist, raises
  \<open>ForeignKeyViolation\<close> on the empty store: no row is added, the transaction is
  aborted, and the next value of the sequence of \<open>vacancies.id\<close> is 2.\<close>

theorem vacancy_references_company_or_null_witness:
  "referential_integrity init_store \<and>
   referential_integrity (perform sixteen_places (Insert_vacancy manager) init_store) \<and>
   referential_integrity (perform sixteen_places (Delete_company 1) saved) \<and>
   vacancies (perform sixteen_places (Delete_company 1) saved) = [] \<and>
   fst (insert_vacancy (listing (Some 7)) init_store) \<noteq> Inr None \<and>
   vacancies (snd (insert_vacancy (listing (Some 7)) init_store)) = [] \<and>
   status (snd (insert_vacancy (listing (Some 7)) init_store)) = Aborted \<and>
   insert_vacancy (listing (Some 7)) init_store
     = (Inl ForeignKeyViolation,
        init_store\<lparr>vacancies_id_seq := 2, status := Aborted\<rparr>)"
proof -
  have h: "status init_store = Ready \<and>
    select_id_where_url (vacancy_url (listing (Some 7))) init_store = [] \<and>
    \<not> has_nul [title (listing (Some 7)), vacancy_url (listing (Some 7)),
                vacancy_description (listing (Some 7))] \<and>
    coercible (listing (Some 7)) \<and> title (listing (Some 7)) \<noteq> None \<and>
    company_id (listing (Some 7)) = Some 7 \<and> 7 \<notin> c_id ` set (companies init_store)"
    by (simp add: listing_def init_store_def select_id_where_url_def coercible_def sql_defs)
  have s: "referential_integrity saved"
    by (simp add: saved_eq referential_integrity_def references_company_def)
  have d: "vacancies (perform sixteen_places (Delete_company 1) saved) = []"
    by (simp add: saved_eq delete_company_def on_delete_cascade_def sql_defs)
  have q: "vacancies_id_seq init_store + 1 = 2" "vacancies init_store = []"
    by (simp_all add: init_store_def)
  note t1 = vacancy_references_company_or_null [of init_store sixteen_places
        "Insert_vacancy manager" "listing (Some 7)" 7]
  note t2 = vacancy_references_company_or_null [of saved sixteen_places "Delete_company 1"
        "listing (Some 7)" 7]
  have 1: "referential_integrity init_store" using t1 by blast
  have 2: "referential_integrity (perform sixteen_places (Insert_vacancy manager) init_store)"
    using t1 by blast
  have 3: "referential_integrity (perform sixteen_places (Delete_company 1) saved)"
    using t2 s by blast
  have 4: "fst (insert_vacancy (listing (Some 7)) init_store) \<noteq> Inr None"
    "vacancies (snd (insert_vacancy (listing (Some 7)) init_store)) = vacancies init_store"
    using t1 h by blast+
  have 5: "status (snd (insert_vacancy (listing (Some 7)) init_store)) = Aborted"
    using t1 h by blast
  have 6: "insert_vacancy (listing (Some 7)) init_store
     = (Inl ForeignKeyViolation,
        init_store\<lparr>vacancies_id_seq := vacancies_id_seq init_store + 1, status := Aborted\<rparr>)"
    using t1 h by blast
  show ?thesis
    using 1 2 3 4 5 6 d by (simp add: q)
qed

subsection \<open>\<open>delete_company\<close> and the cascade\<close>

lemma is_true_eq_Some: "is_true (sql_eq (Some a) (Some b)) \<longleftrightarrow> a = b"
  by (simp add: is_true_def sql_eq_def)

lemma join_filter_inner:
  "concat (map (\<lambda>c. if P c then [(v, c)] else []) (filter Q cs))
     = filter (\<lambda>(v, c). Q c) (concat (map (\<lambda>c. if P c then [(v, c)] else []) cs))"
  by (induction cs) auto

lemma join_filter_none:
  "(\<And>c. c \<in> set cs \<Longrightarrow> P c \<Longrightarrow> \<not> Q c) \<Longrightarrow>
   filter (\<lambda>(v, c). Q c) (concat (map (\<lambda>c. if P c then [(v, c)] else []) cs)) = []"
  by (induction cs) auto

lemma join_after_delete:
  "vacancies_join_companies (snd (delete_company cid s)) =
     (if status s = Ready
      then filter (\<lambda>(v, c). c_id c \<noteq> cid) (vacancies_join_companies s)
      else vacancies_join_companies s)"
proof (cases "status s = Ready")
  case False
  then show ?thesis
    by (cases "status s") (simp_all add: delete_company_def)
next
  case True
  have step: "concat (map (\<lambda>v. concat (map (\<lambda>c.
                  if is_true (sql_eq (v_company_id v) (Some (c_id c))) then [(v, c)] else [])
                  (filter (\<lambda>c. c_id c \<noteq> cid) cs)))
                (on_delete_cascade (filter (\<lambda>c. c_id c = cid) cs) vs))
     = filter (\<lambda>(v, c). c_id c \<noteq> cid)
         (concat (map (\<lambda>v. concat (map (\<lambda>c.
                  if is_true (sql_eq (v_company_id v) (Some (c_id c))) then [(v, c)] else [])
                  cs)) vs))" for cs vs
  proof (induction vs)
    case Nil
    then show ?case by (simp add: on_delete_cascade_def)
  next
    case (Cons v vs)
    show ?case
    proof (cases "list_ex (\<lambda>c. is_true (sql_eq (v_company_id v) (Some (c_id c))))
                    (filter (\<lambda>c. c_id c = cid) cs)")
      case True
      then have "v_company_id v = Some cid"
        by (auto simp: list_ex_iff is_true_def sql_eq_def split: option.splits)
      then have "filter (\<lambda>(v, c). c_id c \<noteq> cid) (concat (map (\<lambda>c.
                  if is_true (sql_eq (v_company_id v) (Some (c_id c))) then [(v, c)] else [])
                  cs)) = []"
        by (intro join_filter_none) (simp add: is_true_def sql_eq_def)
      with True Cons.IH show ?thesis
        by (simp add: on_delete_cascade_def)
    next
      case False
      with Cons.IH show ?thesis
        by (simp add: on_delete_cascade_def join_filter_inner)
    qed
  qed
  from True step [of "companies s" "vacancies s"] show ?thesis
    by (simp add: delete_company_def vacancies_join_companies_def commit_def
        is_true_def sql_eq_def)
qed

text \<open>
  C8. On a usable connection, for every id, \<open>delete_company\<close> removes the row of
  \<open>companies\<close> with that id and, with it, every row of \<open>vacancies\<close> whose \<open>company_id\<close>
  is that id (when no company has the id, nothing is deleted). \<open>get_all_vacancies\<close>
  afterwards returns the rows it returned before without those of that company.
\<close>

theorem delete_company_cascades:
  assumes "status s = Ready"
  shows "companies (snd (delete_company cid s)) = [c \<leftarrow> companies s. c_id c \<noteq> cid] \<and>
    (cid \<in> c_id ` set (companies s) \<longrightarrow>
       vacancies (snd (delete_company cid s))
         = [v \<leftarrow> vacancies s. v_company_id v \<noteq> Some cid]) \<and>
    (cid \<notin> c_id ` set (companies s) \<longrightarrow>
       vacancies (snd (delete_company cid s)) = vacancies s) \<and>
    get_all_vacancies (snd (delete_company cid s)) =
      Inr (fetchall [(c_name c, v_title v, v_salary_from v, v_salary_to v, v_url v).
                     (v, c) \<leftarrow> vacancies_join_companies s, c_id c \<noteq> cid])"
proof (intro conjI impI)
  show "companies (snd (delete_company cid s)) = [c \<leftarrow> companies s. c_id c \<noteq> cid]"
    using assms by (simp add: delete_company_def commit_def is_true_def sql_eq_def)
next
  assume "cid \<in> c_id ` set (companies s)"
  then have ex: "\<And>v. list_ex (\<lambda>c. is_true (sql_eq (v_company_id v) (Some (c_id c))))
                 [c \<leftarrow> companies s. c_id c = cid] \<longleftrightarrow> v_company_id v = Some cid"
    by (auto simp: list_ex_iff is_true_def sql_eq_def split: option.splits)
  show "vacancies (snd (delete_company cid s))
      = [v \<leftarrow> vacancies s. v_company_id v \<noteq> Some cid]"
    using assms
    by (simp add: delete_company_def commit_def on_delete_cascade_def is_true_eq_Some ex)
next
  assume "cid \<notin> c_id ` set (companies s)"
  then have "[c \<leftarrow> companies s. c_id c = cid] = []"
    by (auto simp: filter_empty_conv)
  then show "vacancies (snd (delete_company cid s)) = vacancies s"
    using assms
    by (simp add: delete_company_def commit_def on_delete_cascade_def is_true_def sql_eq_def)
next
  have "status (snd (delete_company cid s)) = Ready"
    using assms by (simp add: delete_company_def commit_def)
  then show "get_all_vacancies (snd (delete_company cid s)) =
      Inr (fetchall [(c_name c, v_title v, v_salary_from v, v_salary_to v, v_url v).
                     (v, c) \<leftarrow> vacancies_join_companies s, c_id c \<noteq> cid])"
    using assms
    by (simp add: get_all_vacancies_def join_after_delete concat_map_if
        case_prod_unfold)
qed

text \<open>Deleting Acme from the store with two companies leaves Globex, its listing and
  the listing without a company; the listing of Acme is gone from \<open>get_all_vacancies\<close>.\<close>

theorem delete_company_cascades_witness:
  "map c_name (companies (snd (delete_company 1 staffed))) = [''Globex''] \<and>
   map v_title (vacancies (snd (delete_company 1 staffed))) = [''Analyst'', ''QA''] \<and>
   get_all_vacancies staffed \<noteq> get_all_vacancies (snd (delete_company 1 staffed)) \<and>
   get_all_vacancies (snd (delete_company 1 staffed))
     = Inr {[(''Globex'', ''Analyst'', None, None, None)]}"
proof -
  have r: "status staffed = Ready" by (simp add: staffed_def)
  have i: "1 \<in> c_id ` set (companies staffed)" by (simp add: staffed_def)
  have j: "[(c_name c, v_title v, v_salary_from v, v_salary_to v, v_url v).
            (v, c) \<leftarrow> vacancies_join_companies staffed, c_id c \<noteq> 1]
     = [(''Globex'', ''Analyst'', None, None, None)]"
    by (simp add: staffed_def vacancies_join_companies_def sql_defs)
  have b: "get_all_vacancies staffed = Inr (fetchall
     [(''Acme'', ''Senior Engineer'', Some 1000, Some 3000, None),
      (''Globex'', ''Analyst'', None, None, None)])"
    by (simp add: get_all_vacancies_def staffed_def vacancies_join_companies_def sql_defs)
  have n: "[(''Acme'', ''Senior Engineer'', Some (1000::int), Some (3000::int), None :: string option),
      (''Globex'', ''Analyst'', None, None, None)] \<notin> {[(''Globex'', ''Analyst'', None, None, None)]}"
    by simp
  have m: "[(''Acme'', ''Senior Engineer'', Some (1000::int), Some (3000::int), None :: string option),
      (''Globex'', ''Analyst'', None, None, None)] \<in> fetchall
     [(''Acme'', ''Senior Engineer'', Some 1000, Some 3000, None),
      (''Globex'', ''Analyst'', None, None, None)]"
    by (simp add: fetchall_def)
  from delete_company_cascades [OF r, of 1] i j
  have d: "companies (snd (delete_company 1 staffed)) = [c \<leftarrow> companies staffed. c_id c \<noteq> 1]"
    "vacancies (snd (delete_company 1 staffed))
       = [v \<leftarrow> vacancies staffed. v_company_id v \<noteq> Some 1]"
    "get_all_vacancies (snd (delete_company 1 staffed))
       = Inr {[(''Globex'', ''Analyst'', None, None, None)]}"
    by (simp_all add: fetchall_single)
  have "get_all_vacancies staffed \<noteq> get_all_vacancies (snd (delete_company 1 staffed))"
    using b d(3) n m by auto
  moreover have "map c_name (companies (snd (delete_company 1 staffed))) = [''Globex'']"
    by (simp add: d(1)) (simp add: staffed_def)
  moreover have "map v_title (vacancies (snd (delete_company 1 staffed))) = [''Analyst'', ''QA'']"
    by (simp add: d(2)) (simp add: staffed_def)
  ultimately show ?thesis using d(3) by blast
qed

subsection \<open>\<open>get_companies_and_vacancies_count\<close>\<close>

lemma fetchall_grouped:
  "fetchall (map (\<lambda>n. (n, f n)) (remdups xs))
     = {r. distinct (map fst r) \<and> set r = (\<lambda>n. (n, f n)) ` set xs}"
proof (intro set_eqI iffI)
  fix r assume "r \<in> fetchall (map (\<lambda>n. (n, f n)) (remdups xs))"
  then have m: "mset r = mset (map (\<lambda>n. (n, f n)) (remdups xs))"
    by (simp add: fetchall_def)
  then have "set r = set (map (\<lambda>n. (n, f n)) (remdups xs))"
    by (rule mset_eq_setD)
  then have s: "set r = (\<lambda>n. (n, f n)) ` set xs" by simp
  from m have "mset (map fst r) = mset (map fst (map (\<lambda>n. (n, f n)) (remdups xs)))"
    by (metis mset_map)
  then have "mset (map fst r) = mset (remdups xs)"
    by (simp add: comp_def)
  then have "distinct (map fst r)"
    by (metis distinct_remdups mset_eq_imp_distinct_iff)
  with s show "r \<in> {r. distinct (map fst r) \<and> set r = (\<lambda>n. (n, f n)) ` set xs}"
    by simp
next
  fix r assume "r \<in> {r. distinct (map fst r) \<and> set r = (\<lambda>n. (n, f n)) ` set xs}"
  then have d: "distinct (map fst r)" and s: "set r = (\<lambda>n. (n, f n)) ` set xs"
    by simp_all
  from d have dr: "distinct r" by (simp add: distinct_map)
  have dg: "distinct (map (\<lambda>n. (n, f n)) (remdups xs))"
    by (simp add: distinct_map inj_on_def)
  from s have "set r = set (map (\<lambda>n. (n, f n)) (remdups xs))" by simp
  with set_eq_iff_mset_eq_distinct [OF dr dg]
  have "mset r = mset (map (\<lambda>n. (n, f n)) (remdups xs))"
    by blast
  then show "r \<in> fetchall (map (\<lambda>n. (n, f n)) (remdups xs))"
    by (simp add: fetchall_def)
qed

lemma sql_count_append: "sql_count (xs @ ys) = sql_count xs + sql_count ys"
  by (simp add: sql_count_def)

lemma is_true_Some_eq: "is_true (sql_eq (Some a) b) \<longleftrightarrow> b = Some a"
  by (auto simp: is_true_def sql_eq_def split: option.splits)

lemma left_join_Nil: "companies_left_join_vacancies (s\<lparr>companies := []\<rparr>) = []"
  by (simp add: companies_left_join_vacancies_def)

lemma left_join_Cons:
  "companies_left_join_vacancies (s\<lparr>companies := c # cs\<rparr>) =
     (if [v \<leftarrow> vacancies s. v_company_id v = Some (c_id c)] = [] then [(c, None)]
      else map (\<lambda>v. (c, Some v)) [v \<leftarrow> vacancies s. v_company_id v = Some (c_id c)])
     @ companies_left_join_vacancies (s\<lparr>companies := cs\<rparr>)"
  by (simp add: companies_left_join_vacancies_def Let_def is_true_Some_eq)

lemma vacancy_count_Nil: "vacancy_count (s\<lparr>companies := []\<rparr>) n = 0"
  by (simp add: vacancy_count_def)

lemma length_concat_if:
  "length (concat (map (\<lambda>v. if P v then [v] else []) vs)) = length (filter P vs)"
  by (induction vs) simp_all

lemma vacancy_count_Cons:
  "vacancy_count (s\<lparr>companies := c # cs\<rparr>) n =
     (if c_name c = n then length [v \<leftarrow> vacancies s. v_company_id v = Some (c_id c)] else 0)
     + vacancy_count (s\<lparr>companies := cs\<rparr>) n"
  by (simp add: vacancy_count_def length_concat_if)

lemma counted_block:
  "sql_count (concat (map (\<lambda>r. if c_name (fst r) = n then [map_option v_id (snd r)] else [])
       (map (\<lambda>v. (c, Some v)) m))) = (if c_name c = n then length m else 0)"
  by (induction m) (simp_all add: sql_count_def)

lemma left_join_names:
  "(\<lambda>r. c_name (fst r)) ` set (companies_left_join_vacancies (s\<lparr>companies := cs\<rparr>))
     = c_name ` set cs"
proof (induction cs)
  case Nil
  show ?case by (simp add: left_join_Nil)
next
  case (Cons c cs)
  have "(\<lambda>r. c_name (fst r)) ` set (if [v \<leftarrow> vacancies s. v_company_id v = Some (c_id c)] = []
           then [(c, None)]
           else map (\<lambda>v. (c, Some v)) [v \<leftarrow> vacancies s. v_company_id v = Some (c_id c)])
        = {c_name c}"
    by (cases "[v \<leftarrow> vacancies s. v_company_id v = Some (c_id c)]") (auto simp: image_iff)
  with Cons show ?case
    by (simp only: left_join_Cons set_append image_Un list.set image_insert) simp
qed

lemma left_join_count:
  "sql_count [map_option v_id (snd r).
              r \<leftarrow> companies_left_join_vacancies (s\<lparr>companies := cs\<rparr>), c_name (fst r) = n]
     = vacancy_count (s\<lparr>companies := cs\<rparr>) n"
proof (induction cs)
  case Nil
  show ?case by (simp add: left_join_Nil vacancy_count_Nil sql_count_def)
next
  case (Cons c cs)
  show ?case
  proof (cases "[v \<leftarrow> vacancies s. v_company_id v = Some (c_id c)] = []")
    case True
    with Cons show ?thesis
      by (simp add: left_join_Cons vacancy_count_Cons sql_count_append) (simp add: sql_count_def)
  next
    case False
    with Cons show ?thesis
      by (simp add: left_join_Cons vacancy_count_Cons sql_count_append counted_block
          del: map_map)
  qed
qed

lemma companies_update_same: "s\<lparr>companies := companies s\<rparr> = s"
  by (cases s) simp

lemma vacancy_count_absent:
  "n \<notin> c_name ` set cs \<Longrightarrow> vacancy_count (s\<lparr>companies := cs\<rparr>) n = 0"
  by (induction cs) (auto simp: vacancy_count_Nil vacancy_count_Cons)

lemma vacancy_count_distinct:
  "distinct (map c_name cs) \<Longrightarrow> c \<in> set cs \<Longrightarrow>
   vacancy_count (s\<lparr>companies := cs\<rparr>) (c_name c)
     = length [v \<leftarrow> vacancies s. v_company_id v = Some (c_id c)]"
proof (induction cs)
  case Nil
  then show ?case by simp
next
  case (Cons a cs)
  show ?case
  proof (cases "c = a")
    case True
    with Cons.prems have "c_name c \<notin> c_name ` set cs" by simp
    with True show ?thesis
      by (simp add: vacancy_count_Cons vacancy_count_absent)
  next
    case False
    with Cons.prems have "c \<in> set cs" "c_name a \<noteq> c_name c" by auto
    with Cons show ?thesis
      by (simp add: vacancy_count_Cons)
  qed
qed

text \<open>
  C9, amended. On a usable connection \<open>get_companies_and_vacancies_count\<close> returns, in
  an order that the query does not fix, one row for each name that occurs in
  \<open>companies\<close>, paired with the number of vacancies of the companies of that name (0 when
  there is none). When no two companies share a name this is, for every company, the
  number of its own vacancies.
\<close>

theorem get_companies_and_vacancies_count_rows:
  assumes "status s = Ready"
  shows "get_companies_and_vacancies_count s =
           Inr {r. distinct (map fst r) \<and>
                   set r = (\<lambda>n. (n, vacancy_count s n)) ` c_name ` set (companies s)} \<and>
         (distinct (map c_name (companies s)) \<longrightarrow>
            (\<forall>c \<in> set (companies s).
               vacancy_count s (c_name c)
                 = length [v \<leftarrow> vacancies s. v_company_id v = Some (c_id c)]))"
proof
  have names: "set (map (\<lambda>r. c_name (fst r)) (companies_left_join_vacancies s))
      = c_name ` set (companies s)"
    using left_join_names [where s = s and cs = "companies s"] by (simp add: companies_update_same)
  have count: "\<And>n. sql_count [map_option v_id (snd r).
              r \<leftarrow> companies_left_join_vacancies s, c_name (fst r) = n] = vacancy_count s n"
    using left_join_count [where s = s and cs = "companies s"] by (simp add: companies_update_same)
  have "group_by_name_count (companies_left_join_vacancies s) =
      map (\<lambda>n. (n, vacancy_count s n))
        (remdups (map (\<lambda>r. c_name (fst r)) (companies_left_join_vacancies s)))"
    unfolding group_by_name_count_def count ..
  then have "fetchall (group_by_name_count (companies_left_join_vacancies s)) =
      {r. distinct (map fst r) \<and>
          set r = (\<lambda>n. (n, vacancy_count s n)) ` c_name ` set (companies s)}"
    by (simp only: fetchall_grouped names)
  with assms show "get_companies_and_vacancies_count s =
           Inr {r. distinct (map fst r) \<and>
                   set r = (\<lambda>n. (n, vacancy_count s n)) ` c_name ` set (companies s)}"
    by (simp add: get_companies_and_vacancies_count_def)
next
  show "distinct (map c_name (companies s)) \<longrightarrow>
            (\<forall>c \<in> set (companies s).
               vacancy_count s (c_name c)
                 = length [v \<leftarrow> vacancies s. v_company_id v = Some (c_id c)])"
    using vacancy_count_distinct [where cs = "companies s" and s = s]
    by (simp add: companies_update_same)
qed

text \<open>
  C9, as stated, fails: the statement has \<open>GROUP BY\<close> and no \<open>ORDER BY\<close>, so for one
  and the same store both orders of the two rows are results of the query.
\<close>

theorem get_companies_and_vacancies_count_order_counterexample:
  "get_companies_and_vacancies_count staffed
     = Inr (fetchall [(''Acme'', 1), (''Globex'', 1)]) \<and>
   [(''Acme'', 1), (''Globex'', 1)] \<in> fetchall [(''Acme'', 1), (''Globex'', 1 :: nat)] \<and>
   [(''Globex'', 1), (''Acme'', 1)] \<in> fetchall [(''Acme'', 1), (''Globex'', 1 :: nat)]"
proof -
  have "group_by_name_count (companies_left_join_vacancies staffed)
      = [(''Acme'', 1), (''Globex'', 1)]"
    by (simp add: group_by_name_count_def companies_left_join_vacancies_def staffed_def
        sql_count_def sql_defs)
  then show ?thesis
    by (simp add: get_companies_and_vacancies_count_def fetchall_def) (simp add: staffed_def)
qed

text \<open>After the listing of Globex is deleted, Globex is still listed, with the count
  0, next to Acme with the count 1; a result without Globex is not possible.\<close>

theorem get_companies_and_vacancies_count_rows_witness:
  "(case get_companies_and_vacancies_count (snd (delete_vacancy 2 staffed)) of
      Inl e \<Rightarrow> False
    | Inr R \<Rightarrow> [(''Acme'', 1), (''Globex'', 0)] \<in> R \<and> [(''Acme'', 1)] \<notin> R) \<and>
   vacancy_count (snd (delete_vacancy 2 staffed)) ''Globex''
     = length [v \<leftarrow> vacancies (snd (delete_vacancy 2 staffed)). v_company_id v = Some 2]"
proof -
  have w: "snd (delete_vacancy 2 staffed) = staffed\<lparr>vacancies :=
       [\<lparr>v_id = 1, v_company_id = Some 1, v_title = ''Senior Engineer'',
         v_salary_from = Some 1000, v_salary_to = Some 3000, v_url = None,
         v_description = None\<rparr>,
        \<lparr>v_id = 3, v_company_id = None, v_title = ''QA'',
         v_salary_from = None, v_salary_to = None, v_url = None, v_description = None\<rparr>]\<rparr>"
    by (simp add: delete_vacancy_def staffed_def sql_defs)
  have r: "status (snd (delete_vacancy 2 staffed)) = Ready"
    by (simp add: w) (simp add: staffed_def)
  have d: "distinct (map c_name (companies (snd (delete_vacancy 2 staffed))))"
    by (simp add: w) (simp add: staffed_def)
  have g: "\<lparr>c_id = 2, c_name = ''Globex'', c_url = None, c_description = None\<rparr>
      \<in> set (companies (snd (delete_vacancy 2 staffed)))"
    by (simp add: w) (simp add: staffed_def)
  have n: "c_name ` set (companies (snd (delete_vacancy 2 staffed))) = {''Acme'', ''Globex''}"
    by (simp add: w) (simp add: staffed_def)
  have c: "vacancy_count (snd (delete_vacancy 2 staffed)) ''Acme'' = 1"
      "vacancy_count (snd (delete_vacancy 2 staffed)) ''Globex'' = 0"
    by (simp_all add: w vacancy_count_def) (simp_all add: staffed_def)
  have img: "(\<lambda>n. (n, vacancy_count (snd (delete_vacancy 2 staffed)) n)) `
        c_name ` set (companies (snd (delete_vacancy 2 staffed)))
      = {(''Acme'', 1), (''Globex'', 0)}"
    by (simp add: n c)
  note rows = get_companies_and_vacancies_count_rows [OF r]
  have R: "get_companies_and_vacancies_count (snd (delete_vacancy 2 staffed)) =
      Inr {r. distinct (map fst r) \<and> set r = {(''Acme'', 1), (''Globex'', 0)}}"
    using rows [THEN conjunct1] unfolding img .
  have V: "\<forall>c \<in> set (companies (snd (delete_vacancy 2 staffed))).
       vacancy_count (snd (delete_vacancy 2 staffed)) (c_name c)
         = length [v \<leftarrow> vacancies (snd (delete_vacancy 2 staffed)).
                   v_company_id v = Some (c_id c)]"
    using rows [THEN conjunct2] d by blast
  have m1: "[(''Acme'', 1), (''Globex'', 0 :: nat)]
      \<in> {r. distinct (map fst r) \<and> set r = {(''Acme'', 1), (''Globex'', 0)}}"
    by simp
  have m2: "[(''Acme'', 1 :: nat)]
      \<notin> {r. distinct (map fst r) \<and> set r = {(''Acme'', 1), (''Globex'', 0)}}"
    by auto
  from V g have v: "vacancy_count (snd (delete_vacancy 2 staffed)) ''Globex''
     = length [v \<leftarrow> vacancies (snd (delete_vacancy 2 staffed)). v_company_id v = Some 2]"
    by fastforce
  show ?thesis
    unfolding R using m1 m2 v by (simp only: sum.case simp_thms)
qed

subsection \<open>\<open>get_vacancies_with_keyword\<close>\<close>

lemma ilike_percent_all: "ilike lower t ''%''"
  by (induction t) simp_all

lemma ilike_percent:
  "ilike lower t (CHR ''%'' # ps) \<longleftrightarrow> (\<exists>a b. t = a @ b \<and> ilike lower b ps)"
proof (induction t)
  case Nil
  show ?case by simp
next
  case (Cons x t)
  have "ilike lower (x # t) (CHR ''%'' # ps)
      \<longleftrightarrow> ilike lower (x # t) ps \<or> ilike lower t (CHR ''%'' # ps)"
    by simp
  also have "\<dots> \<longleftrightarrow> ilike lower (x # t) ps \<or> (\<exists>a b. t = a @ b \<and> ilike lower b ps)"
    by (simp only: Cons.IH)
  also have "\<dots> \<longleftrightarrow> (\<exists>a b. x # t = a @ b \<and> ilike lower b ps)"
  proof
    assume "ilike lower (x # t) ps \<or> (\<exists>a b. t = a @ b \<and> ilike lower b ps)"
    then show "\<exists>a b. x # t = a @ b \<and> ilike lower b ps"
    proof
      assume "ilike lower (x # t) ps"
      then have "x # t = [] @ (x # t) \<and> ilike lower (x # t) ps" by simp
      then show ?thesis by blast
    next
      assume "\<exists>a b. t = a @ b \<and> ilike lower b ps"
      then obtain a b where "t = a @ b" "ilike lower b ps" by blast
      then have "x # t = (x # a) @ b \<and> ilike lower b ps" by simp
      then show ?thesis by blast
    qed
  next
    assume "\<exists>a b. x # t = a @ b \<and> ilike lower b ps"
    then obtain a b where ab: "x # t = a @ b" "ilike lower b ps" by blast
    show "ilike lower (x # t) ps \<or> (\<exists>a b. t = a @ b \<and> ilike lower b ps)"
    proof (cases a)
      case Nil
      with ab show ?thesis by simp
    next
      case (Cons y a')
      with ab have "t = a' @ b" by simp
      with ab(2) show ?thesis by blast
    qed
  qed
  finally show ?case .
qed

lemma ilike_literal:
  "\<forall>c \<in> set k. \<not> metachar c \<Longrightarrow>
     ilike lower t (k @ ps)
       \<longleftrightarrow> (\<exists>k' t'. t = k' @ t' \<and> map lower k' = map lower k \<and> ilike lower t' ps)"
proof (induction k arbitrary: t)
  case Nil
  show ?case by simp
next
  case (Cons c k)
  then have c: "c \<noteq> CHR ''%''" "c \<noteq> CHR ''_''" "c \<noteq> CHR 0x5C"
    by (simp_all add: metachar_def)
  from Cons have IH: "\<And>t. ilike lower t (k @ ps)
      \<longleftrightarrow> (\<exists>k' t'. t = k' @ t' \<and> map lower k' = map lower k \<and> ilike lower t' ps)"
    by simp
  show ?case
  proof (cases t)
    case Nil
    with c show ?thesis by simp
  next
    case (Cons x ts)
    have "ilike lower (x # ts) ((c # k) @ ps)
        \<longleftrightarrow> lower x = lower c \<and> ilike lower ts (k @ ps)"
      using c by simp
    also have "\<dots> \<longleftrightarrow> lower x = lower c \<and>
        (\<exists>k' t'. ts = k' @ t' \<and> map lower k' = map lower k \<and> ilike lower t' ps)"
      by (simp only: IH)
    also have "\<dots> \<longleftrightarrow> (\<exists>k' t'. x # ts = k' @ t' \<and> map lower k' = map lower (c # k) \<and>
        ilike lower t' ps)"
    proof
      assume "lower x = lower c \<and>
        (\<exists>k' t'. ts = k' @ t' \<and> map lower k' = map lower k \<and> ilike lower t' ps)"
      then obtain k' t' where "lower x = lower c" "ts = k' @ t'"
        "map lower k' = map lower k" "ilike lower t' ps"
        by blast
      then have "x # ts = (x # k') @ t' \<and> map lower (x # k') = map lower (c # k) \<and>
        ilike lower t' ps"
        by simp
      then show "\<exists>k' t'. x # ts = k' @ t' \<and> map lower k' = map lower (c # k) \<and>
        ilike lower t' ps"
        by blast
    next
      assume "\<exists>k' t'. x # ts = k' @ t' \<and> map lower k' = map lower (c # k) \<and>
        ilike lower t' ps"
      then obtain k' t' where h: "x # ts = k' @ t'" "map lower k' = map lower (c # k)"
        "ilike lower t' ps"
        by blast
      from h(2) obtain y k'' where k': "k' = y # k''" by (cases k') auto
      with h have "lower x = lower c" "ts = k'' @ t'" "map lower k'' = map lower k"
        by simp_all
      with h(3) show "lower x = lower c \<and>
        (\<exists>k' t'. ts = k' @ t' \<and> map lower k' = map lower k \<and> ilike lower t' ps)"
        by blast
    qed
    finally show ?thesis by (simp only: Cons)
  qed
qed

lemma sublist_map_iff:
  "sublist (map f k) (map f t) \<longleftrightarrow> (\<exists>a k' b. t = a @ k' @ b \<and> map f k' = map f k)"
proof
  assume "sublist (map f k) (map f t)"
  then obtain x y where "map f t = x @ map f k @ y"
    by (auto simp: sublist_def)
  then have "\<exists>a r. t = a @ r \<and> x = map f a \<and> map f k @ y = map f r"
    by (simp only: map_eq_append_conv)
  then obtain a r where 1: "t = a @ r" "map f k @ y = map f r"
    by blast
  from 1(2) have "\<exists>k' b. r = k' @ b \<and> map f k = map f k' \<and> y = map f b"
    by (simp only: append_eq_map_conv)
  then obtain k' b where "r = k' @ b" "map f k' = map f k"
    by auto
  with 1 show "\<exists>a k' b. t = a @ k' @ b \<and> map f k' = map f k" by blast
next
  assume "\<exists>a k' b. t = a @ k' @ b \<and> map f k' = map f k"
  then obtain a k' b where "t = a @ k' @ b" "map f k' = map f k" by blast
  then have "map f t = map f a @ map f k @ map f b" by simp
  then show "sublist (map f k) (map f t)"
    unfolding sublist_def by blast
qed

lemma ilike_contains:
  assumes "\<forall>c \<in> set k. \<not> metachar c"
  shows "ilike lower t (CHR ''%'' # k @ ''%'') \<longleftrightarrow> sublist (map lower k) (map lower t)"
proof -
  have "ilike lower t (CHR ''%'' # k @ ''%'')
      \<longleftrightarrow> (\<exists>a b. t = a @ b \<and> ilike lower b (k @ ''%''))"
    by (rule ilike_percent)
  also have "\<dots> \<longleftrightarrow> (\<exists>a b. t = a @ b \<and> (\<exists>k' t'. b = k' @ t' \<and> map lower k' = map lower k))"
    by (simp only: ilike_literal [OF assms] ilike_percent_all simp_thms)
  also have "\<dots> \<longleftrightarrow> (\<exists>a k' b. t = a @ k' @ b \<and> map lower k' = map lower k)"
    by blast
  also have "\<dots> \<longleftrightarrow> sublist (map lower k) (map lower t)"
    by (simp only: sublist_map_iff)
  finally show ?thesis .
qed

lemma concat_map_singleton_pair:
  "concat (map (\<lambda>(v, c). [f v c]) xs) = map (\<lambda>(v, c). f v c) xs"
  by (induction xs) auto

lemma has_nul_pattern:
  "has_nul [Some (CHR ''%'' # keyword @ ''%'')] \<longleftrightarrow> CHR 0x00 \<in> set keyword"
  by (simp add: has_nul_def)

text \<open>
  C7, amended. On a usable connection, for a keyword without \<open>%\<close>, \<open>_\<close>, backslash and
  the NUL character, \<open>get_vacancies_with_keyword\<close> returns, in some order, the rows of
  the join of \<open>vacancies\<close> with \<open>companies\<close> whose title contains the keyword, both taken
  in the lower case of the locale of the database, whichever it is; the empty keyword
  gives every row of the join, that is every vacancy that has a company.
\<close>

theorem get_vacancies_with_keyword_contains:
  assumes "status s = Ready" and "\<forall>c \<in> set keyword. \<not> metachar c"
    and "CHR 0x00 \<notin> set keyword"
  shows "get_vacancies_with_keyword lower keyword s =
           Inr (fetchall [(c_name c, v_title v, v_url v).
                          (v, c) \<leftarrow> vacancies_join_companies s,
                          sublist (map lower keyword) (map lower (v_title v))]) \<and>
         get_vacancies_with_keyword lower [] s =
           Inr (fetchall [(c_name c, v_title v, v_url v).
                          (v, c) \<leftarrow> vacancies_join_companies s])"
proof
  show "get_vacancies_with_keyword lower keyword s =
           Inr (fetchall [(c_name c, v_title v, v_url v).
                          (v, c) \<leftarrow> vacancies_join_companies s,
                          sublist (map lower keyword) (map lower (v_title v))])"
    using assms(1,3)
    by (simp add: get_vacancies_with_keyword_def has_nul_pattern
        ilike_contains [OF assms(2)] del: ilike.simps)
next
  have "\<forall>c \<in> set ''''. \<not> metachar c" by simp
  from ilike_contains [OF this] show "get_vacancies_with_keyword lower [] s =
           Inr (fetchall [(c_name c, v_title v, v_url v).
                          (v, c) \<leftarrow> vacancies_join_companies s])"
    using assms(1)
    by (simp add: get_vacancies_with_keyword_def has_nul_def concat_map_singleton_pair
        del: ilike.simps)
qed

lemma staffed_join:
  "vacancies_join_companies staffed =
    [(\<lparr>v_id = 1, v_company_id = Some 1, v_title = ''Senior Engineer'',
         v_salary_from = Some 1000, v_salary_to = Some 3000, v_url = None,
         v_description = None\<rparr>,
      \<lparr>c_id = 1, c_name = ''Acme'', c_url = None, c_description = None\<rparr>),
     (\<lparr>v_id = 2, v_company_id = Some 2, v_title = ''Analyst'',
         v_salary_from = None, v_salary_to = None, v_url = None, v_description = None\<rparr>,
      \<lparr>c_id = 2, c_name = ''Globex'', c_url = None, c_description = None\<rparr>)]"
  by (simp add: staffed_def vacancies_join_companies_def sql_defs)

lemma cafe_join:
  "vacancies_join_companies cafe =
    [(\<lparr>v_id = 1, v_company_id = Some 1, v_title = ''CAF'' @ [CHR 0xC9],
         v_salary_from = None, v_salary_to = None, v_url = None, v_description = None\<rparr>,
      \<lparr>c_id = 1, c_name = ''Acme'', c_url = None, c_description = None\<rparr>)]"
  by (simp add: cafe_def vacancies_join_companies_def sql_defs)

text \<open>
  C7, as stated, fails three times on the store with two companies. The keyword \<open>_\<close>
  is put into the pattern as it is and stands for any one character: both listings
  are returned, and neither title contains an underscore. The empty keyword does not
  match every vacancy: the listing \<open>QA\<close>, which has no company, is not in the join. And
  a keyword with a NUL character gives no list: the call raises \<open>ValueError\<close>.
\<close>

theorem get_vacancies_with_keyword_counterexample:
  "get_vacancies_with_keyword lower_char ''_'' staffed
     = Inr (fetchall [(''Acme'', ''Senior Engineer'', None), (''Globex'', ''Analyst'', None)]) \<and>
   CHR ''_'' \<notin> set ''Senior Engineer'' \<and> CHR ''_'' \<notin> set ''Analyst'' \<and>
   get_vacancies_with_keyword lower_char '''' staffed
     = Inr (fetchall [(''Acme'', ''Senior Engineer'', None), (''Globex'', ''Analyst'', None)]) \<and>
   map v_title (vacancies staffed) = [''Senior Engineer'', ''Analyst'', ''QA''] \<and>
   get_vacancies_with_keyword lower_char [CHR 0x00] staffed = Inl ValueError"
proof -
  have r: "status staffed = Ready" by (simp add: staffed_def)
  have t: "map v_title (vacancies staffed) = [''Senior Engineer'', ''Analyst'', ''QA'']"
    by (simp add: staffed_def)
  have m: "ilike lower_char ''Senior Engineer'' ''%_%''" "ilike lower_char ''Analyst'' ''%_%''"
    "ilike lower_char ''Senior Engineer'' ''%%''" "ilike lower_char ''Analyst'' ''%%''"
    by simp_all
  show ?thesis
    using r by (simp add: get_vacancies_with_keyword_def staffed_join m t has_nul_def)
qed

text \<open>The keyword \<open>engineer\<close> finds the title \<open>Senior Engineer\<close> and nothing else. The
  keyword \<open>caf\<close> followed by the small letter \<open>e\<close> with acute accent finds the title
  \<open>CAF\<close> followed by the capital letter when the locale knows the two as one letter,
  and does not find it in the locale \<open>C\<close>.\<close>

theorem get_vacancies_with_keyword_contains_witness:
  "get_vacancies_with_keyword lower_char ''engineer'' staffed
     = Inr {[(''Acme'', ''Senior Engineer'', None)]} \<and>
   get_vacancies_with_keyword lower_char '''' staffed
     = Inr (fetchall [(''Acme'', ''Senior Engineer'', None), (''Globex'', ''Analyst'', None)]) \<and>
   get_vacancies_with_keyword lower_latin1 (''caf'' @ [CHR 0xE9]) cafe
     = Inr {[(''Acme'', ''CAF'' @ [CHR 0xC9], None)]} \<and>
   get_vacancies_with_keyword lower_char (''caf'' @ [CHR 0xE9]) cafe = Inr {[]}"
proof -
  have r: "status staffed = Ready" "status cafe = Ready"
    by (simp_all add: staffed_def cafe_def)
  have k: "\<forall>c \<in> set ''engineer''. \<not> metachar c" "CHR 0x00 \<notin> set ''engineer''"
    "\<forall>c \<in> set (''caf'' @ [CHR 0xE9]). \<not> metachar c" "CHR 0x00 \<notin> set (''caf'' @ [CHR 0xE9])"
    by (simp_all add: metachar_def)
  have l: "lower_char CHR ''S'' = CHR ''s''" "lower_char CHR ''E'' = CHR ''e''"
    "lower_char CHR ''A'' = CHR ''a''" "lower_char CHR ''C'' = CHR ''c''"
    "lower_char CHR ''F'' = CHR ''f''" "lower_char CHR '' '' = CHR '' ''"
    "lower_char CHR ''a'' = CHR ''a''" "lower_char CHR ''c'' = CHR ''c''"
    "lower_char CHR ''e'' = CHR ''e''" "lower_char CHR ''f'' = CHR ''f''"
    "lower_char CHR ''g'' = CHR ''g''" "lower_char CHR ''i'' = CHR ''i''"
    "lower_char CHR ''l'' = CHR ''l''" "lower_char CHR ''n'' = CHR ''n''"
    "lower_char CHR ''o'' = CHR ''o''" "lower_char CHR ''r'' = CHR ''r''"
    "lower_char CHR ''s'' = CHR ''s''" "lower_char CHR ''t'' = CHR ''t''"
    "lower_char CHR ''y'' = CHR ''y''"
    "lower_char (CHR 0xC9) = CHR 0xC9" "lower_char (CHR 0xE9) = CHR 0xE9"
    by code_simp+
  have s1: "sublist ''engineer'' ''senior engineer''"
    unfolding sublist_def
    by (rule exI [of _ "''senior ''"], rule exI [of _ "''''"]) simp
  have s2: "\<not> sublist ''engineer'' ''analyst''"
    by (simp add: sublist_code)
  have s3: "\<not> sublist [CHR ''c'', CHR ''a'', CHR ''f'', CHR 0xE9]
                        [CHR ''c'', CHR ''a'', CHR ''f'', CHR 0xC9]"
    by (simp add: sublist_code)
  from get_vacancies_with_keyword_contains [OF r(1) k(1,2), of lower_char]
       get_vacancies_with_keyword_contains [OF r(2) k(3,4), of lower_latin1]
       get_vacancies_with_keyword_contains [OF r(2) k(3,4), of lower_char]
  show ?thesis
    by (simp add: staffed_join cafe_join lower_latin1_def l s1 s2 s3 fetchall_single
        fetchall_Nil)
qed

end
